theory Spec2Isabelle
  imports Main "HOL-Library.Word" "HOL-Library.Char_ord" "HOL-Library.List_Lexorder"
begin

section \<open>Data model of the code navigation service\<close>

text \<open>
  The embedding follows \<open>codenav/types.go\<close> (the moniker set and the \<open>Cursor\<close> with its
  bump operations) and the traversal file that defines \<open>gatherLocations\<close>,
  \<open>symbolsToMonikers\<close> and the four \<open>NewGet...\<close> entry points.

  Go's \<open>int\<close> is a 64-bit two's complement integer on the platforms the service runs on.
  The cursor offsets, on which the bump operations do arithmetic, are \<open>64 word\<close>: \<open>+\<close>
  wraps and \<open>\<le>s\<close>, \<open><s\<close> compare signed values. Identifiers, lines, characters and
  limits are only passed around, never computed with, and are \<open>int\<close>.
\<close>

type_synonym goint = "64 word"

subsection \<open>Parsed symbols (library \<open>scip\<close>)\<close>

text \<open>
  \<open>scip.ParseSymbol\<close> belongs to an external library. Its result type is modelled with
  the fields \<open>symbolsToMonikers\<close> reads; the parser itself is a parameter of the model
  (a field of \<open>Service\<close> below).
\<close>

record scip_Package =
  Manager :: string
  Name :: string
  Version :: string

record scip_Symbol =
  Scheme :: string
  Package :: scip_Package

subsection \<open>Monikers (package \<open>precise\<close>)\<close>

text \<open>
  \<open>precise.MonikerData\<close>, \<open>precise.PackageInformationData\<close> and
  \<open>precise.QualifiedMonikerData\<close> are declared in package \<open>precise\<close>; the records have
  the fields that \<open>add\<close> and \<open>symbolsToMonikers\<close> read and write. The qualified moniker
  embeds the other two structs.
\<close>

record MonikerData =
  Scheme :: string
  Identifier :: string

record PackageInformationData =
  Manager :: string
  Name :: string
  Version :: string

record QualifiedMonikerData =
  MonikerData :: MonikerData
  PackageInformationData :: PackageInformationData

subsection \<open>The qualified moniker set\<close>

record qualifiedMonikerSet =
  monikers :: "QualifiedMonikerData list"
  monikerHashMap :: "string set"

definition newQualifiedMonikerSet :: qualifiedMonikerSet where
  "newQualifiedMonikerSet = \<lparr> monikers = [], monikerHashMap = {} \<rparr>"

text \<open>\<open>strings.Join(elems, sep)\<close>: the elements with \<open>sep\<close> between neighbours.\<close>

fun strings_Join :: "string list \<Rightarrow> string \<Rightarrow> string" where
  "strings_Join [] sep = []"
| "strings_Join [x] sep = x"
| "strings_Join (x # y # ys) sep = x @ sep @ strings_Join (y # ys) sep"

definition monikerHash :: "QualifiedMonikerData \<Rightarrow> string" where
  "monikerHash qualifiedMoniker = strings_Join
     [ Name (PackageInformationData qualifiedMoniker),
       Version (PackageInformationData qualifiedMoniker),
       Scheme (MonikerData qualifiedMoniker),
       Manager (PackageInformationData qualifiedMoniker),
       Identifier (MonikerData qualifiedMoniker) ] '':''"

text \<open>
  \<open>add\<close> mutates the set through its pointer receiver; the model returns the set after
  the call.
\<close>

definition add :: "qualifiedMonikerSet \<Rightarrow> QualifiedMonikerData \<Rightarrow> qualifiedMonikerSet" where
  "add s qualifiedMoniker =
     (if monikerHash qualifiedMoniker \<in> monikerHashMap s then s
      else s\<lparr> monikerHashMap := insert (monikerHash qualifiedMoniker) (monikerHashMap s),
              monikers := monikers s @ [qualifiedMoniker] \<rparr>)"

text \<open>The set reached from the empty one by a sequence of \<open>add\<close> calls.\<close>

definition addAll :: "QualifiedMonikerData list \<Rightarrow> qualifiedMonikerSet" where
  "addAll qs = foldl add newQualifiedMonikerSet qs"

subsection \<open>The cursor and its bump operations\<close>

record Position =
  Line :: int
  Character :: int

record CursorVisibleUpload =
  DumpID :: int
  TargetPath :: string
  TargetPosition :: Position
  TargetPathWithoutRoot :: string

text \<open>A nil slice and an empty slice are both the empty list; a nil map is the empty map.\<close>

record Cursor =
  Phase :: string
  VisibleUploads :: "CursorVisibleUpload list"
  LocalUploadOffset :: goint
  LocalLocationOffset :: goint
  SymbolNames :: "string list"
  SkipPathsByUploadID :: "int \<rightharpoonup> string"
  DefinitionIDs :: "int list"
  UploadIDs :: "int list"
  RemoteUploadOffset :: goint
  RemoteLocationOffset :: goint

text \<open>
  The three bump methods have a value receiver \<open>c\<close>, the first argument here: the body
  works on a copy of the caller's struct and returns it. They assign to integer fields and to the slice header
  \<open>UploadIDs\<close> of the copy only, and write through no slice or map, so a function from
  the cursor value to the returned value is the whole effect.
\<close>

definition BumpLocalLocationOffset :: "Cursor \<Rightarrow> goint \<Rightarrow> goint \<Rightarrow> Cursor" where
  "BumpLocalLocationOffset c n totalCount =
     (let c = c\<lparr> LocalLocationOffset := LocalLocationOffset c + n \<rparr>
      in if totalCount \<le>s LocalLocationOffset c
         then (let c = c\<lparr> LocalUploadOffset := LocalUploadOffset c + 1 \<rparr>
               in c\<lparr> LocalLocationOffset := 0 \<rparr>)
         else c)"

definition BumpRemoteUploadOffset :: "Cursor \<Rightarrow> goint \<Rightarrow> goint \<Rightarrow> Cursor" where
  "BumpRemoteUploadOffset c n totalCount =
     (let c = c\<lparr> RemoteUploadOffset := RemoteUploadOffset c + n \<rparr>
      in if totalCount \<le>s RemoteUploadOffset c
         then c\<lparr> RemoteUploadOffset := - 1 \<rparr>
         else c)"

definition BumpRemoteLocationOffset :: "Cursor \<Rightarrow> goint \<Rightarrow> goint \<Rightarrow> Cursor" where
  "BumpRemoteLocationOffset c n totalCount =
     (let c = c\<lparr> RemoteLocationOffset := RemoteLocationOffset c + n \<rparr>
      in if totalCount \<le>s RemoteLocationOffset c
         then (let c = c\<lparr> UploadIDs := [] \<rparr>
               in c\<lparr> RemoteLocationOffset := 0 \<rparr>)
         else c)"

section \<open>The shared traversal\<close>

subsection \<open>Types the traversal passes around\<close>

text \<open>
  Modelled from the spec: \<open>shared.Location\<close>, \<open>shared.UploadLocation\<close> and
  \<open>uploadsshared.Dump\<close> are declared in other packages of the repository. The spec gives
  a location as upload id, path and range and an adjusted location as the same rewritten to
  the requested commit plus the upload record. The traversal itself reads only \<open>Dump.ID\<close>.
\<close>

record Range =
  Start :: Position
  End :: Position

record Location =
  DumpID :: int
  Path :: string
  Range :: Range

record Dump =
  ID :: int

record UploadLocation =
  Dump :: Dump
  Path :: string
  TargetCommit :: string
  TargetRange :: Range

datatype error = Error string

record visibleUpload =
  Upload :: Dump
  TargetPath :: string
  TargetPosition :: Position
  TargetPathWithoutRoot :: string

record RequestArgs =
  RepositoryID :: int
  Commit :: string
  Path :: string
  Line :: int
  Character :: int
  Limit :: int
  RawCursor :: string

record CursorToVisibleUpload =
  DumpID :: int
  TargetPath :: string
  TargetPosition :: Position
  TargetPathWithoutRoot :: string

text \<open>
  \<open>RequestState\<close> and \<open>GenericCursor\<close> are declared in another file of the package. The
  traversal and the upload factories read \<open>maximumIndexesPerMonikerSearch\<close> of the former
  and \<open>Phase\<close> and \<open>CursorsToVisibleUploads\<close> of the latter; these are the fields of
  the records. \<open>GenericCursor{}\<close> is the zero value: the empty phase and no uploads.
\<close>

record RequestState =
  maximumIndexesPerMonikerSearch :: int

record GenericCursor =
  Phase :: string
  CursorsToVisibleUploads :: "CursorToVisibleUpload list"

definition zeroGenericCursor :: GenericCursor where
  "zeroGenericCursor = \<lparr> Phase = [], CursorsToVisibleUploads = [] \<rparr>"

definition exhaustedCursor :: GenericCursor where
  "exhaustedCursor = \<lparr> Phase = ''done'', CursorsToVisibleUploads = [] \<rparr>"

definition skipPrefix :: string where
  "skipPrefix = ''lsif .''"

text \<open>\<open>strings.HasPrefix(s, prefix)\<close>.\<close>

definition strings_HasPrefix :: "string \<Rightarrow> string \<Rightarrow> bool" where
  "strings_HasPrefix s prefix \<longleftrightarrow>
     length prefix \<le> length s \<and> take (length prefix) s = prefix"

subsection \<open>Collaborators\<close>

text \<open>
  The traversal calls the bundle store, the upload service, the symbol parser and helper
  methods of the service that are defined in other files
  (\<open>getVisibleUploadsFromCursor\<close>, \<open>getUploadLocations\<close>,
  \<open>getUploadsWithDefinitionsForMonikers\<close>, \<open>getUploadsByIDs\<close>). Each is a parameter:
  a field of \<open>Service\<close> that maps the arguments of the call to an error (\<open>Inl\<close>) or to the
  values returned (\<open>Inr\<close>). The context argument, the observation and the trace events
  are left out. \<open>getVisibleUploadsFromCursor\<close> receives the cursor's upload list by
  pointer; the model takes it to read the list only, as the spec describes the resolver.
\<close>

type_synonym getSearchableUploadIDsFunc =
  "QualifiedMonikerData list \<Rightarrow> error + int list"

type_synonym getLocationsFromPositionFunc =
  "int \<Rightarrow> string \<Rightarrow> int \<Rightarrow> int \<Rightarrow> int \<Rightarrow> int \<Rightarrow> error + (Location list \<times> int \<times> string list)"

record Service =
  getVisibleUploadsFromCursor ::
    "int \<Rightarrow> int \<Rightarrow> CursorToVisibleUpload list \<Rightarrow> RequestState
       \<Rightarrow> error + (visibleUpload list \<times> CursorToVisibleUpload list)"
  getUploadLocations ::
    "RequestArgs \<Rightarrow> RequestState \<Rightarrow> Location list \<Rightarrow> bool \<Rightarrow> error + UploadLocation list"
  getUploadsWithDefinitionsForMonikers ::
    "QualifiedMonikerData list \<Rightarrow> RequestState \<Rightarrow> error + Dump list"
  getUploadsByIDs :: "int list \<Rightarrow> RequestState \<Rightarrow> error + Dump list"
  GetUploadIDsWithReferences ::
    "QualifiedMonikerData list \<Rightarrow> int list \<Rightarrow> int \<Rightarrow> string \<Rightarrow> int \<Rightarrow> int
       \<Rightarrow> error + (int list \<times> int \<times> int)"
  ExtractDefinitionLocationsFromPosition :: getLocationsFromPositionFunc
  ExtractReferenceLocationsFromPosition :: getLocationsFromPositionFunc
  ExtractImplementationLocationsFromPosition :: getLocationsFromPositionFunc
  ExtractPrototypeLocationsFromPosition :: getLocationsFromPositionFunc
  GetMinimalBulkMonikerLocations ::
    "string \<Rightarrow> int list \<Rightarrow> (int \<rightharpoonup> string) \<Rightarrow> MonikerData list \<Rightarrow> int \<Rightarrow> int
       \<Rightarrow> error + (Location list \<times> int)"
  ParseSymbol :: "string \<Rightarrow> error + scip_Symbol"

text \<open>
  Which collaborators a request calls, and with which arguments, is part of what the
  claims say. The traversal therefore returns, next to its three Go results, the list of
  the calls it made, in order.
\<close>

datatype call =
    CallGetVisibleUploadsFromCursor int int "CursorToVisibleUpload list"
  | CallGetLocationsFromPosition int string int int int int
  | CallGetUploadLocations "Location list" bool
  | CallSymbolsToMonikers "string list"
  | CallGetSearchableUploadIDs "QualifiedMonikerData list"
  | CallGetMinimalBulkMonikerLocations string "int list" "int \<rightharpoonup> string" "MonikerData list" int int

subsection \<open>The upload factories\<close>

definition makeDefinitionUploadFactory :: "Service \<Rightarrow> RequestState \<Rightarrow> getSearchableUploadIDsFunc" where
  "makeDefinitionUploadFactory s requestState = (\<lambda>monikers.
     case getUploadsWithDefinitionsForMonikers s monikers requestState of
       Inl err \<Rightarrow> Inl err
     | Inr uploads \<Rightarrow> Inr (map ID uploads))"

definition makeReferencesUploadFactory ::
  "Service \<Rightarrow> RequestArgs \<Rightarrow> RequestState \<Rightarrow> getSearchableUploadIDsFunc" where
  "makeReferencesUploadFactory s args requestState = (\<lambda>monikers.
     case getUploadsWithDefinitionsForMonikers s monikers requestState of
       Inl err \<Rightarrow> Inl err
     | Inr uploads \<Rightarrow>
         (let ids = map ID uploads
          in case GetUploadIDsWithReferences s monikers ids (RepositoryID args) (Commit args)
                    (maximumIndexesPerMonikerSearch requestState) 0 of
               Inl err \<Rightarrow> Inl err
             | Inr (referenceIDs, _, _) \<Rightarrow>
                 (case getUploadsByIDs s referenceIDs requestState of
                    Inl err \<Rightarrow> Inl err
                  | Inr _ \<Rightarrow> Inr (ids @ referenceIDs))))"

subsection \<open>\<open>symbolsToMonikers\<close>\<close>

fun symbolsToMonikers ::
  "(string \<Rightarrow> error + scip_Symbol) \<Rightarrow> string list \<Rightarrow> error + QualifiedMonikerData list" where
  "symbolsToMonikers parse [] = Inr []"
| "symbolsToMonikers parse (symbolName # symbolNames) =
     (case parse symbolName of
        Inl err \<Rightarrow> Inl err
      | Inr parsedSymbol \<Rightarrow>
          (case symbolsToMonikers parse symbolNames of
             Inl err \<Rightarrow> Inl err
           | Inr ms \<Rightarrow> Inr (
               \<lparr> MonikerData = \<lparr> Scheme = scip_Symbol.Scheme parsedSymbol,
                                 Identifier = symbolName \<rparr>,
                 PackageInformationData =
                   \<lparr> Manager = scip_Package.Manager (Package parsedSymbol),
                     Name = scip_Package.Name (Package parsedSymbol),
                     Version = scip_Package.Version (Package parsedSymbol) \<rparr> \<rparr>
               # ms)))"

subsection \<open>\<open>gatherLocations\<close>\<close>

text \<open>
  The local variables of \<open>gatherLocations\<close> that the loop over the visible uploads
  updates. \<open>allSymbols\<close> is a Go map used as a set, \<open>skipPaths\<close> a map from upload id
  to one path.
\<close>

record locals =
  allLocations :: "UploadLocation list"
  allSymbols :: "string set"
  skipPaths :: "int \<rightharpoonup> string"

text \<open>
  One pass through the loop body either returns from \<open>gatherLocations\<close> with its three
  results, or goes on with updated local variables.
\<close>

datatype flow =
    Return "UploadLocation list \<times> GenericCursor \<times> error option"
  | Continue locals

text \<open>The inner loop over \<open>uploadSymbols\<close>.\<close>

definition addSymbols :: "string list \<Rightarrow> string set \<Rightarrow> string set" where
  "addSymbols uploadSymbols symbols =
     fold (\<lambda>symbolName acc.
             if \<not> strings_HasPrefix symbolName skipPrefix then insert symbolName acc else acc)
          uploadSymbols symbols"

text \<open>The body of the loop over \<open>visibleUploads\<close>, for one visible upload.\<close>

definition visitUpload ::
  "Service \<Rightarrow> RequestArgs \<Rightarrow> RequestState \<Rightarrow> bool \<Rightarrow> getLocationsFromPositionFunc
     \<Rightarrow> visibleUpload \<Rightarrow> locals \<Rightarrow> call list \<Rightarrow> flow \<times> call list" where
  "visitUpload s args requestState stopAfterFirstResult getLocationsFromPosition vu st calls =
     (let calls = calls @ [CallGetLocationsFromPosition
                         (ID (Upload vu)) (visibleUpload.TargetPathWithoutRoot vu)
                         (Position.Line (visibleUpload.TargetPosition vu))
                         (Position.Character (visibleUpload.TargetPosition vu))
                         (Limit args) 0]
      in case getLocationsFromPosition
                (ID (Upload vu)) (visibleUpload.TargetPathWithoutRoot vu)
                (Position.Line (visibleUpload.TargetPosition vu))
                (Position.Character (visibleUpload.TargetPosition vu))
                (Limit args) 0 of
           Inl err \<Rightarrow> (Return ([], zeroGenericCursor, Some err), calls)
         | Inr (locations, _, uploadSymbols) \<Rightarrow>
             if locations \<noteq> [] then
               (let calls = calls @ [CallGetUploadLocations locations True]
                in case getUploadLocations s args requestState locations True of
                     Inl err \<Rightarrow> (Return ([], zeroGenericCursor, Some err), calls)
                   | Inr uploadLocations \<Rightarrow>
                       if stopAfterFirstResult
                       then (Return (uploadLocations, exhaustedCursor, None), calls)
                       else (Continue
                               \<lparr> allLocations = allLocations st @ uploadLocations,
                                 allSymbols = addSymbols uploadSymbols (allSymbols st),
                                 skipPaths = (skipPaths st)
                                   (ID (Upload vu) \<mapsto> visibleUpload.TargetPathWithoutRoot vu) \<rparr>,
                             calls))
             else (Continue (st\<lparr> allSymbols := addSymbols uploadSymbols (allSymbols st) \<rparr>),
                   calls))"

fun localLoop ::
  "Service \<Rightarrow> RequestArgs \<Rightarrow> RequestState \<Rightarrow> bool \<Rightarrow> getLocationsFromPositionFunc
     \<Rightarrow> visibleUpload list \<Rightarrow> locals \<Rightarrow> call list \<Rightarrow> flow \<times> call list" where
  "localLoop s args requestState stop getLocs [] st calls = (Continue st, calls)"
| "localLoop s args requestState stop getLocs (vu # visibleUploads) st calls =
     (case visitUpload s args requestState stop getLocs vu st calls of
        (Return r, calls') \<Rightarrow> (Return r, calls')
      | (Continue st', calls') \<Rightarrow> localLoop s args requestState stop getLocs visibleUploads st' calls')"

text \<open>
  The part of \<open>gatherLocations\<close> after the loop: sort the collected symbol names, parse
  them into monikers, find the uploads to search, run the one bulk moniker lookup and
  adjust its locations.
\<close>

definition afterLoop ::
  "Service \<Rightarrow> RequestArgs \<Rightarrow> RequestState \<Rightarrow> string \<Rightarrow> getSearchableUploadIDsFunc
     \<Rightarrow> locals \<Rightarrow> call list
     \<Rightarrow> (UploadLocation list \<times> GenericCursor \<times> error option) \<times> call list" where
  "afterLoop s args requestState tableName getSearchableUploadIDs st calls =
     (let symbolNames = sorted_list_of_set (allSymbols st);
          calls = calls @ [CallSymbolsToMonikers symbolNames]
      in case symbolsToMonikers (ParseSymbol s) symbolNames of
           Inl err \<Rightarrow> (([], zeroGenericCursor, Some err), calls)
         | Inr ms \<Rightarrow>
             (let calls = calls @ [CallGetSearchableUploadIDs ms]
              in case getSearchableUploadIDs ms of
                   Inl err \<Rightarrow> (([], zeroGenericCursor, Some err), calls)
                 | Inr uploadIDs \<Rightarrow>
                     (let monikerArgs = map MonikerData ms;
                          calls = calls @ [CallGetMinimalBulkMonikerLocations
                                         tableName uploadIDs (skipPaths st) monikerArgs 10000 0]
                      in case GetMinimalBulkMonikerLocations s
                                tableName uploadIDs (skipPaths st) monikerArgs 10000 0 of
                           Inl err \<Rightarrow> (([], zeroGenericCursor, Some err), calls)
                         | Inr (locations, _) \<Rightarrow>
                             (let calls = calls @ [CallGetUploadLocations locations False]
                              in case getUploadLocations s args requestState locations False of
                                   Inl err \<Rightarrow> (([], zeroGenericCursor, Some err), calls)
                                 | Inr adjustedLocations \<Rightarrow>
                                     ((allLocations st @ adjustedLocations,
                                       exhaustedCursor, None), calls)))))"

definition gatherLocations ::
  "Service \<Rightarrow> RequestArgs \<Rightarrow> RequestState \<Rightarrow> GenericCursor \<Rightarrow> string \<Rightarrow> bool
     \<Rightarrow> getSearchableUploadIDsFunc \<Rightarrow> getLocationsFromPositionFunc
     \<Rightarrow> (UploadLocation list \<times> GenericCursor \<times> error option) \<times> call list" where
  "gatherLocations s args requestState cursor tableName stopAfterFirstResult
       getSearchableUploadIDs getLocationsFromPosition =
     (let calls = [CallGetVisibleUploadsFromCursor
                   (Line args) (Character args) (CursorsToVisibleUploads cursor)]
      in case getVisibleUploadsFromCursor s
                (Line args) (Character args) (CursorsToVisibleUploads cursor) requestState of
           Inl err \<Rightarrow> (([], cursor, Some err), calls)
         | Inr (visibleUploads, cursorsToVisibleUploads) \<Rightarrow>
             (let cursor = cursor\<lparr> CursorsToVisibleUploads := cursorsToVisibleUploads \<rparr>
              in case localLoop s args requestState stopAfterFirstResult
                        getLocationsFromPosition visibleUploads
                        \<lparr> allLocations = [], allSymbols = {}, skipPaths = Map.empty \<rparr> calls of
                   (Return r, calls') \<Rightarrow> (r, calls')
                 | (Continue st, calls') \<Rightarrow>
                     afterLoop s args requestState tableName getSearchableUploadIDs st calls'))"

subsection \<open>The four operations\<close>

definition NewGetDefinitions ::
  "Service \<Rightarrow> RequestArgs \<Rightarrow> RequestState \<Rightarrow> (UploadLocation list \<times> error option) \<times> call list" where
  "NewGetDefinitions s args requestState =
     (case gatherLocations s args requestState zeroGenericCursor ''definitions'' True
             (makeDefinitionUploadFactory s requestState)
             (ExtractDefinitionLocationsFromPosition s) of
        ((locations, _, err), calls) \<Rightarrow> ((locations, err), calls))"

definition NewGetReferences ::
  "Service \<Rightarrow> RequestArgs \<Rightarrow> RequestState \<Rightarrow> GenericCursor
     \<Rightarrow> (UploadLocation list \<times> GenericCursor \<times> error option) \<times> call list" where
  "NewGetReferences s args requestState cursor =
     gatherLocations s args requestState cursor ''references'' False
       (makeReferencesUploadFactory s args requestState)
       (ExtractReferenceLocationsFromPosition s)"

definition NewGetImplementations ::
  "Service \<Rightarrow> RequestArgs \<Rightarrow> RequestState \<Rightarrow> GenericCursor
     \<Rightarrow> (UploadLocation list \<times> GenericCursor \<times> error option) \<times> call list" where
  "NewGetImplementations s args requestState cursor =
     gatherLocations s args requestState cursor ''implementations'' False
       (makeReferencesUploadFactory s args requestState)
       (ExtractImplementationLocationsFromPosition s)"

definition NewGetPrototypes ::
  "Service \<Rightarrow> RequestArgs \<Rightarrow> RequestState \<Rightarrow> GenericCursor
     \<Rightarrow> (UploadLocation list \<times> GenericCursor \<times> error option) \<times> call list" where
  "NewGetPrototypes s args requestState cursor =
     gatherLocations s args requestState cursor ''definitions'' False
       (makeDefinitionUploadFactory s requestState)
       (ExtractPrototypeLocationsFromPosition s)"

subsection \<open>Reading a result and describing a run\<close>

text \<open>The three Go results of a call and the calls it made.\<close>

definition resultLocations ::
  "('l \<times> 'c \<times> error option) \<times> call list \<Rightarrow> 'l" where
  "resultLocations r = fst (fst r)"

definition resultCursor ::
  "('l \<times> 'c \<times> error option) \<times> call list \<Rightarrow> 'c" where
  "resultCursor r = fst (snd (fst r))"

definition resultError ::
  "('l \<times> 'c \<times> error option) \<times> call list \<Rightarrow> error option" where
  "resultError r = snd (snd (fst r))"

definition resultCalls ::
  "('l \<times> 'c \<times> error option) \<times> call list \<Rightarrow> call list" where
  "resultCalls r = snd r"

text \<open>
  The positional lookup that the loop makes for one visible upload, the entry that the
  call leaves in the list of calls, and whether the lookup yields at least one location.
\<close>

definition lookupAt ::
  "getLocationsFromPositionFunc \<Rightarrow> RequestArgs \<Rightarrow> visibleUpload
     \<Rightarrow> error + (Location list \<times> int \<times> string list)" where
  "lookupAt getLocationsFromPosition args vu =
     getLocationsFromPosition
       (ID (Upload vu)) (visibleUpload.TargetPathWithoutRoot vu)
       (Position.Line (visibleUpload.TargetPosition vu))
       (Position.Character (visibleUpload.TargetPosition vu))
       (Limit args) 0"

definition positionCall :: "RequestArgs \<Rightarrow> visibleUpload \<Rightarrow> call" where
  "positionCall args vu =
     CallGetLocationsFromPosition
       (ID (Upload vu)) (visibleUpload.TargetPathWithoutRoot vu)
       (Position.Line (visibleUpload.TargetPosition vu))
       (Position.Character (visibleUpload.TargetPosition vu))
       (Limit args) 0"

definition yields :: "getLocationsFromPositionFunc \<Rightarrow> RequestArgs \<Rightarrow> visibleUpload \<Rightarrow> bool" where
  "yields getLocationsFromPosition args vu =
     (case lookupAt getLocationsFromPosition args vu of
        Inl err \<Rightarrow> False
      | Inr (locations, _, _) \<Rightarrow> locations \<noteq> [])"

text \<open>The calls that the loop over the visible uploads makes.\<close>

fun isLocalCall :: "call \<Rightarrow> bool" where
  "isLocalCall (CallGetLocationsFromPosition bundleID path line character limit offset) = True"
| "isLocalCall (CallGetUploadLocations locations local) = local"
| "isLocalCall c = False"

definition skipEntry :: "visibleUpload \<Rightarrow> int \<times> string" where
  "skipEntry vu = (ID (Upload vu), visibleUpload.TargetPathWithoutRoot vu)"


section \<open>Concrete values\<close>

text \<open>
  Two qualified monikers that differ in package name and version, with a colon inside a
  field, and a cursor in the middle of the local phase.
\<close>

definition colonInName :: QualifiedMonikerData where
  "colonInName =
     \<lparr> MonikerData = \<lparr> Scheme = ''gomod'', Identifier = ''f'' \<rparr>,
       PackageInformationData = \<lparr> Manager = ''go'', Name = ''a:b'', Version = ''c'' \<rparr> \<rparr>"


definition midLocalCursor :: Cursor where
  "midLocalCursor =
     \<lparr> Cursor.Phase = ''local'', VisibleUploads = [], LocalUploadOffset = 0,
       LocalLocationOffset = 2, SymbolNames = [], SkipPathsByUploadID = Map.empty,
       DefinitionIDs = [], UploadIDs = [7], RemoteUploadOffset = 0,
       RemoteLocationOffset = 0 \<rparr>"

text \<open>
  A service over two visible uploads. Every positional lookup finds one location in the
  file it is asked about (none when the limit is 0) and reports two symbol names, one of
  them with the reserved marker prefix. The package of the symbol is declared by upload 9
  and referenced by upload 10; the bulk lookup knows one location in upload 9 and one in
  upload 1 and leaves out what \<open>skipPaths\<close> names. The toy parser rejects names that
  do not start with \<open>scip-go\<close>.
\<close>

definition exampleArgs :: RequestArgs where
  "exampleArgs =
     \<lparr> RepositoryID = 42, Commit = ''deadbeef'', Path = ''cmd/main.go'',
       Line = 3, Character = 4, Limit = 10, RawCursor = [] \<rparr>"

definition exampleState :: RequestState where
  "exampleState = \<lparr> maximumIndexesPerMonikerSearch = 50 \<rparr>"

definition exampleRange :: Range where
  "exampleRange = \<lparr> Start = \<lparr> Position.Line = 3, Position.Character = 0 \<rparr>,
                    End = \<lparr> Position.Line = 3, Position.Character = 8 \<rparr> \<rparr>"

definition uploadA :: visibleUpload where
  "uploadA = \<lparr> Upload = \<lparr> ID = 1 \<rparr>, TargetPath = ''cmd/main.go'',
               TargetPosition = \<lparr> Position.Line = 3, Position.Character = 4 \<rparr>,
               TargetPathWithoutRoot = ''main.go'' \<rparr>"

definition uploadB :: visibleUpload where
  "uploadB = \<lparr> Upload = \<lparr> ID = 2 \<rparr>, TargetPath = ''cmd/main.go'',
               TargetPosition = \<lparr> Position.Line = 5, Position.Character = 4 \<rparr>,
               TargetPathWithoutRoot = ''cmd/main.go'' \<rparr>"

definition exampleLocation :: "int \<Rightarrow> string \<Rightarrow> Location" where
  "exampleLocation bundleID path =
     \<lparr> Location.DumpID = bundleID, Location.Path = path, Location.Range = exampleRange \<rparr>"

definition exampleAdjust :: "RequestArgs \<Rightarrow> Location \<Rightarrow> UploadLocation" where
  "exampleAdjust args l =
     \<lparr> Dump = \<lparr> ID = Location.DumpID l \<rparr>, Path = Location.Path l,
       TargetCommit = Commit args, TargetRange = Location.Range l \<rparr>"

definition exampleSymbol :: string where
  "exampleSymbol = ''scip-go gomod pkg v1 Sym#''"

definition exampleLookup :: getLocationsFromPositionFunc where
  "exampleLookup bundleID path line character limit offset =
     Inr (take (nat limit) [exampleLocation bundleID path], 1, [''lsif . foo'', exampleSymbol])"

definition exampleParse :: "string \<Rightarrow> error + scip_Symbol" where
  "exampleParse symbolName =
     (if strings_HasPrefix symbolName ''scip-go''
      then Inr \<lparr> scip_Symbol.Scheme = ''scip-go'',
                 Package = \<lparr> scip_Package.Manager = ''gomod'', scip_Package.Name = ''pkg'',
                             scip_Package.Version = ''v1'' \<rparr> \<rparr>
      else Inl (Error (''invalid symbol: '' @ symbolName)))"

definition exampleRemote :: "(int \<rightharpoonup> string) \<Rightarrow> Location list" where
  "exampleRemote skip =
     filter (\<lambda>l. skip (Location.DumpID l) \<noteq> Some (Location.Path l))
       [exampleLocation 9 ''dep.go'', exampleLocation 1 ''main.go'']"

definition exampleBulk ::
  "string \<Rightarrow> int list \<Rightarrow> (int \<rightharpoonup> string) \<Rightarrow> MonikerData list \<Rightarrow> int \<Rightarrow> int
     \<Rightarrow> error + (Location list \<times> int)" where
  "exampleBulk tableName uploadIDs skip monikerArgs limit offset =
     Inr (exampleRemote skip, 2)"

definition exampleService :: Service where
  "exampleService =
     \<lparr> getVisibleUploadsFromCursor = (\<lambda>line character cursors requestState.
         Inr ([uploadA, uploadB], cursors)),
       getUploadLocations = (\<lambda>args requestState locations local.
         Inr (map (exampleAdjust args) locations)),
       getUploadsWithDefinitionsForMonikers = (\<lambda>ms requestState. Inr [\<lparr> ID = 9 \<rparr>]),
       getUploadsByIDs = (\<lambda>ids requestState. Inr (map (\<lambda>i. \<lparr> ID = i \<rparr>) ids)),
       GetUploadIDsWithReferences = (\<lambda>ms ids repositoryID commit limit offset.
         Inr ([10], 1, 1)),
       ExtractDefinitionLocationsFromPosition = exampleLookup,
       ExtractReferenceLocationsFromPosition = exampleLookup,
       ExtractImplementationLocationsFromPosition = exampleLookup,
       ExtractPrototypeLocationsFromPosition = exampleLookup,
       GetMinimalBulkMonikerLocations = exampleBulk,
       ParseSymbol = exampleParse \<rparr>"




text \<open>The moniker that \<open>symbolsToMonikers\<close> makes of \<open>exampleSymbol\<close>.\<close>

definition exampleMoniker :: QualifiedMonikerData where
  "exampleMoniker =
     \<lparr> MonikerData = \<lparr> Scheme = ''scip-go'', Identifier = exampleSymbol \<rparr>,
       PackageInformationData = \<lparr> Manager = ''gomod'', Name = ''pkg'', Version = ''v1'' \<rparr> \<rparr>"

section \<open>The qualified moniker set\<close>

lemma add_monikerHashMap:
  "monikerHashMap (add s q) = insert (monikerHash q) (monikerHashMap s)"
  by (auto simp: add_def)

lemma addAll_snoc: "addAll (qs @ [q]) = add (addAll qs) q"
  by (simp add: addAll_def)

lemma addAll_Nil: "addAll [] = newQualifiedMonikerSet"
  by (simp add: addAll_def)

text \<open>The hash map holds the joined strings of everything that was ever offered.\<close>

lemma addAll_hashes: "monikerHashMap (addAll qs) = monikerHash ` set qs"
  by (induction qs rule: rev_induct)
     (auto simp: addAll_snoc addAll_Nil add_monikerHashMap newQualifiedMonikerSet_def)

text \<open>It also holds exactly the joined strings of the monikers that were kept.\<close>

lemma addAll_monikers_hashes:
  "monikerHash ` set (monikers (addAll qs)) = monikerHashMap (addAll qs)"
  by (induction qs rule: rev_induct)
     (auto simp: addAll_snoc addAll_Nil add_def newQualifiedMonikerSet_def)

lemma addAll_monikers_subset: "set (monikers (addAll qs)) \<subseteq> set qs"
  by (induction qs rule: rev_induct)
     (auto simp: addAll_snoc addAll_Nil add_def newQualifiedMonikerSet_def)

lemma addAll_distinct_hashes: "distinct (map monikerHash (monikers (addAll qs)))"
proof (induction qs rule: rev_induct)
  case Nil
  then show ?case by (simp add: addAll_Nil newQualifiedMonikerSet_def)
next
  case (snoc q qs)
  show ?case
  proof (cases "monikerHash q \<in> monikerHashMap (addAll qs)")
    case True
    with snoc show ?thesis by (simp add: addAll_snoc add_def)
  next
    case False
    then have "monikerHash q \<notin> monikerHash ` set (monikers (addAll qs))"
      by (simp add: addAll_monikers_hashes)
    with snoc False show ?thesis by (simp add: addAll_snoc add_def)
  qed
qed

lemma addAll_distinct: "distinct (monikers (addAll qs))"
  using addAll_distinct_hashes [of qs] by (simp add: distinct_map)

lemma distinct_count_list_one:
  "distinct xs \<Longrightarrow> x \<in> set xs \<Longrightarrow> count_list xs x = 1"
  by (induction xs) auto

text \<open>
  C6. Adding a qualified moniker a second time changes nothing, from any set. After any
  sequence of \<open>add\<close> calls on the empty set, adding a moniker that was offered before, or
  one that is an element, leaves the set as it is; an element occurs exactly once, and
  the kept monikers are pairwise distinct, whatever the order of the calls. Two monikers
  are equal when their five fields are.
\<close>

theorem add_idempotent:
  "add (add s q) q = add s q \<and>
   (q \<in> set qs \<longrightarrow> add (addAll qs) q = addAll qs) \<and>
   (q \<in> set (monikers (addAll qs)) \<longrightarrow>
      add (addAll qs) q = addAll qs \<and> count_list (monikers (addAll qs)) q = 1) \<and>
   distinct (monikers (addAll qs))"
proof -
  have a: "add (add s q) q = add s q"
    by (simp add: add_def)
  have b: "add (addAll qs) q = addAll qs" if "q \<in> set qs"
    using that by (simp add: add_def addAll_hashes)
  have c: "count_list (monikers (addAll qs)) q = 1" if "q \<in> set (monikers (addAll qs))"
    using that addAll_distinct [of qs] by (simp add: distinct_count_list_one)
  have d: "q \<in> set qs" if "q \<in> set (monikers (addAll qs))"
    using that addAll_monikers_subset by blast
  show ?thesis using a b c d addAll_distinct by blast
qed

theorem add_idempotent_witness:
  "colonInName \<in> set [colonInName, colonInName] \<and>
   colonInName \<in> set (monikers (addAll [colonInName, colonInName])) \<and>
   monikers (addAll [colonInName, colonInName]) = [colonInName] \<and>
   add (addAll [colonInName, colonInName]) colonInName = addAll [colonInName, colonInName] \<and>
   count_list (monikers (addAll [colonInName, colonInName])) colonInName = 1"
proof -
  have m: "monikers (addAll [colonInName, colonInName]) = [colonInName]"
    by (simp add: addAll_def add_def newQualifiedMonikerSet_def)
  have i: "colonInName \<in> set [colonInName, colonInName]" by simp
  show ?thesis
    using add_idempotent [of newQualifiedMonikerSet colonInName "[colonInName, colonInName]"] m i
    by simp
qed



section \<open>The bump operations\<close>

lemma sle_iff: "(a :: goint) \<le>s b \<longleftrightarrow> sint a \<le> sint b"
  by (simp add: word_sle_eq)

lemma sint_plus_in_range:
  fixes a b :: goint
  assumes "- (2 ^ 63) \<le> sint a + sint b" "sint a + sint b < 2 ^ 63"
  shows "sint (a + b) = sint a + sint b"
  using assms by (simp add: sint_word_ariths signed_take_bit_int_eq_self)

text \<open>
  C7. \<open>BumpLocalLocationOffset\<close> adds \<open>n\<close> to the local location offset; when the sum
  is at least \<open>totalCount\<close>, the local location offset becomes 0 and the local upload
  offset goes up by one, otherwise the upload offset stays. The sum and the comparison
  are those of Go's \<open>int\<close>; for a non-negative \<open>n\<close> whose sum with the offset fits in
  63 bits they are the sum and the comparison of the integers.
\<close>

theorem BumpLocalLocationOffset_arith:
  "(if totalCount \<le>s LocalLocationOffset c + n
    then LocalLocationOffset (BumpLocalLocationOffset c n totalCount) = 0 \<and>
         LocalUploadOffset (BumpLocalLocationOffset c n totalCount) = LocalUploadOffset c + 1
    else LocalLocationOffset (BumpLocalLocationOffset c n totalCount)
           = LocalLocationOffset c + n \<and>
         LocalUploadOffset (BumpLocalLocationOffset c n totalCount) = LocalUploadOffset c) \<and>
   (sint (LocalLocationOffset c) + sint n < 2 ^ 63 \<and> 0 \<le> sint n \<longrightarrow>
      (totalCount \<le>s LocalLocationOffset c + n
         \<longleftrightarrow> sint totalCount \<le> sint (LocalLocationOffset c) + sint n) \<and>
      sint (LocalLocationOffset c + n) = sint (LocalLocationOffset c) + sint n)"
proof -
  have "sint (LocalLocationOffset c + n) = sint (LocalLocationOffset c) + sint n"
    if "sint (LocalLocationOffset c) + sint n < 2 ^ 63" "0 \<le> sint n"
  proof -
    have "- (2 ^ 63) \<le> sint (LocalLocationOffset c)"
      using sint_ge [of "LocalLocationOffset c"] by simp
    with that show ?thesis by (intro sint_plus_in_range) auto
  qed
  then show ?thesis
    by (simp add: BumpLocalLocationOffset_def Let_def sle_iff)
qed

theorem BumpLocalLocationOffset_arith_witness:
  "sint (LocalLocationOffset midLocalCursor) + sint (3 :: goint) < 2 ^ 63 \<and>
   0 \<le> sint (3 :: goint) \<and>
   sint (5 :: goint) \<le> sint (LocalLocationOffset midLocalCursor) + sint (3 :: goint) \<and>
   LocalLocationOffset (BumpLocalLocationOffset midLocalCursor 3 5) = 0 \<and>
   LocalUploadOffset (BumpLocalLocationOffset midLocalCursor 3 5) = 1 \<and>
   LocalLocationOffset (BumpLocalLocationOffset midLocalCursor 3 9) = 5 \<and>
   LocalUploadOffset (BumpLocalLocationOffset midLocalCursor 3 9) = 0"
  using BumpLocalLocationOffset_arith [of 5 midLocalCursor 3]
        BumpLocalLocationOffset_arith [of 9 midLocalCursor 3]
  by (simp add: midLocalCursor_def)

text \<open>
  C9. Each bump operation returns its receiver with only the designated fields replaced:
  the two local offsets for \<open>BumpLocalLocationOffset\<close>, the remote upload offset for
  \<open>BumpRemoteUploadOffset\<close>, the remote location offset and the upload id batch for
  \<open>BumpRemoteLocationOffset\<close>. Every other field of the result is that of the input.
  The receiver is passed by value, so the caller's cursor is the unchanged \<open>c\<close>.
\<close>

theorem bump_frame:
  "(\<exists>x y. BumpLocalLocationOffset c n totalCount
            = c\<lparr> LocalLocationOffset := x, LocalUploadOffset := y \<rparr>) \<and>
   (\<exists>x. BumpRemoteUploadOffset c n totalCount = c\<lparr> RemoteUploadOffset := x \<rparr>) \<and>
   (\<exists>x ids. BumpRemoteLocationOffset c n totalCount
            = c\<lparr> RemoteLocationOffset := x, UploadIDs := ids \<rparr>)"
proof (intro conjI)
  show "\<exists>x y. BumpLocalLocationOffset c n totalCount
            = c\<lparr> LocalLocationOffset := x, LocalUploadOffset := y \<rparr>"
  proof (cases "totalCount \<le>s LocalLocationOffset c + n")
    case True
    then have "BumpLocalLocationOffset c n totalCount
            = c\<lparr> LocalLocationOffset := 0, LocalUploadOffset := LocalUploadOffset c + 1 \<rparr>"
      by (simp add: BumpLocalLocationOffset_def Let_def)
    then show ?thesis by blast
  next
    case False
    then have "BumpLocalLocationOffset c n totalCount
            = c\<lparr> LocalLocationOffset := LocalLocationOffset c + n,
                 LocalUploadOffset := LocalUploadOffset c \<rparr>"
      by (simp add: BumpLocalLocationOffset_def Let_def)
    then show ?thesis by blast
  qed
  show "\<exists>x. BumpRemoteUploadOffset c n totalCount = c\<lparr> RemoteUploadOffset := x \<rparr>"
    by (cases "totalCount \<le>s RemoteUploadOffset c + n")
       (auto simp: BumpRemoteUploadOffset_def Let_def)
  show "\<exists>x ids. BumpRemoteLocationOffset c n totalCount
            = c\<lparr> RemoteLocationOffset := x, UploadIDs := ids \<rparr>"
  proof (cases "totalCount \<le>s RemoteLocationOffset c + n")
    case True
    then have "BumpRemoteLocationOffset c n totalCount
            = c\<lparr> RemoteLocationOffset := 0, UploadIDs := [] \<rparr>"
      by (simp add: BumpRemoteLocationOffset_def Let_def)
    then show ?thesis by blast
  next
    case False
    then have "BumpRemoteLocationOffset c n totalCount
            = c\<lparr> RemoteLocationOffset := RemoteLocationOffset c + n,
                 UploadIDs := UploadIDs c \<rparr>"
      by (simp add: BumpRemoteLocationOffset_def Let_def)
    then show ?thesis by blast
  qed
qed

section \<open>The traversal: the loop over the visible uploads\<close>

text \<open>What one pass through the loop body does, case by case.\<close>

lemma visitUpload_lookup_error:
  assumes "lookupAt getLocs args vu = Inl e"
  shows "visitUpload s args rs stop getLocs vu st calls
           = (Return ([], zeroGenericCursor, Some e), calls @ [positionCall args vu])"
  using assms by (simp add: visitUpload_def lookupAt_def positionCall_def)

lemma visitUpload_empty:
  assumes "lookupAt getLocs args vu = Inr ([], n, syms)"
  shows "visitUpload s args rs stop getLocs vu st calls
           = (Continue (st\<lparr> allSymbols := addSymbols syms (allSymbols st) \<rparr>),
              calls @ [positionCall args vu])"
  using assms by (simp add: visitUpload_def lookupAt_def positionCall_def)

lemma visitUpload_adjust_error:
  assumes "lookupAt getLocs args vu = Inr (locs, n, syms)" "locs \<noteq> []"
      and "getUploadLocations s args rs locs True = Inl e"
  shows "visitUpload s args rs stop getLocs vu st calls
           = (Return ([], zeroGenericCursor, Some e),
              calls @ [positionCall args vu, CallGetUploadLocations locs True])"
  using assms by (simp add: visitUpload_def lookupAt_def positionCall_def)

lemma visitUpload_stop:
  assumes "lookupAt getLocs args vu = Inr (locs, n, syms)" "locs \<noteq> []"
      and "getUploadLocations s args rs locs True = Inr uls"
  shows "visitUpload s args rs True getLocs vu st calls
           = (Return (uls, exhaustedCursor, None),
              calls @ [positionCall args vu, CallGetUploadLocations locs True])"
  using assms by (simp add: visitUpload_def lookupAt_def positionCall_def)

lemma visitUpload_accumulate:
  assumes "lookupAt getLocs args vu = Inr (locs, n, syms)" "locs \<noteq> []"
      and "getUploadLocations s args rs locs True = Inr uls"
  shows "visitUpload s args rs False getLocs vu st calls
           = (Continue \<lparr> allLocations = allLocations st @ uls,
                         allSymbols = addSymbols syms (allSymbols st),
                         skipPaths = (skipPaths st)
                           (ID (Upload vu) \<mapsto> visibleUpload.TargetPathWithoutRoot vu) \<rparr>,
              calls @ [positionCall args vu, CallGetUploadLocations locs True])"
  using assms by (simp add: visitUpload_def lookupAt_def positionCall_def)

lemma visitUpload_cases:
  obtains (LookupError) e where "lookupAt getLocs args vu = Inl e"
  | (Empty) n syms where "lookupAt getLocs args vu = Inr ([], n, syms)"
  | (AdjustError) locs n syms e where "lookupAt getLocs args vu = Inr (locs, n, syms)"
      "locs \<noteq> []" "getUploadLocations s args rs locs True = Inl e"
  | (Adjusted) locs n syms uls where "lookupAt getLocs args vu = Inr (locs, n, syms)"
      "locs \<noteq> []" "getUploadLocations s args rs locs True = Inr uls"
proof (cases "lookupAt getLocs args vu")
  case (Inl e)
  then show ?thesis by (rule LookupError)
next
  case (Inr r)
  obtain locs n syms where r: "r = (locs, n, syms)" by (cases r) auto
  show ?thesis
  proof (cases "locs = []")
    case True
    with Inr r show ?thesis by (auto intro: Empty)
  next
    case False
    with Inr r show ?thesis
      by (cases "getUploadLocations s args rs locs True") (auto intro: AdjustError Adjusted)
  qed
qed

lemma visitUpload_calls:
  assumes "visitUpload s args rs stop getLocs vu st calls = (f, calls')"
  shows "\<exists>new. calls' = calls @ new \<and> list_all isLocalCall new"
proof (cases rule: visitUpload_cases [where getLocs=getLocs and args=args and vu=vu and s=s and rs=rs])
  case (LookupError e)
  with assms show ?thesis by (auto simp: visitUpload_lookup_error positionCall_def)
next
  case (Empty n syms)
  with assms show ?thesis by (auto simp: visitUpload_empty positionCall_def)
next
  case (AdjustError locs n syms e)
  with assms show ?thesis by (auto simp: visitUpload_adjust_error positionCall_def)
next
  case (Adjusted locs n syms uls)
  with assms show ?thesis
    by (cases stop) (auto simp: visitUpload_stop visitUpload_accumulate positionCall_def)
qed

lemma localLoop_calls:
  "localLoop s args rs stop getLocs vus st calls = (f, calls')
     \<Longrightarrow> \<exists>new. calls' = calls @ new \<and> list_all isLocalCall new"
proof (induction vus arbitrary: st calls)
  case Nil
  then show ?case by simp
next
  case (Cons vu vus)
  obtain f1 c1 where v: "visitUpload s args rs stop getLocs vu st calls = (f1, c1)"
    by (cases "visitUpload s args rs stop getLocs vu st calls") auto
  from visitUpload_calls [OF v] obtain new1 where
    n1: "c1 = calls @ new1" "list_all isLocalCall new1" by blast
  show ?case
  proof (cases f1)
    case (Return r)
    with Cons.prems v n1 show ?thesis by auto
  next
    case (Continue st1)
    with Cons.prems v have "localLoop s args rs stop getLocs vus st1 c1 = (f, calls')"
      by simp
    from Cons.IH [OF this] obtain new2 where
      "calls' = c1 @ new2" "list_all isLocalCall new2" by blast
    with n1 show ?thesis by auto
  qed
qed

lemma visitUpload_Return_ok:
  assumes "visitUpload s args rs stop getLocs vu st calls = (Return (locs, c, None), calls')"
  shows "c = exhaustedCursor \<and> stop"
proof (cases rule: visitUpload_cases [where getLocs=getLocs and args=args and vu=vu and s=s and rs=rs])
  case (LookupError e)
  with assms show ?thesis by (simp add: visitUpload_lookup_error)
next
  case (Empty n syms)
  with assms show ?thesis by (simp add: visitUpload_empty)
next
  case (AdjustError locs n syms e)
  with assms show ?thesis by (simp add: visitUpload_adjust_error)
next
  case (Adjusted locs n syms uls)
  with assms show ?thesis
    by (cases stop) (auto simp: visitUpload_stop visitUpload_accumulate)
qed

lemma localLoop_Return_ok:
  "localLoop s args rs stop getLocs vus st calls = (Return (locs, c, None), calls')
     \<Longrightarrow> c = exhaustedCursor \<and> stop"
proof (induction vus arbitrary: st calls)
  case Nil
  then show ?case by simp
next
  case (Cons vu vus)
  obtain f1 c1 where v: "visitUpload s args rs stop getLocs vu st calls = (f1, c1)"
    by (cases "visitUpload s args rs stop getLocs vu st calls") auto
  show ?case
  proof (cases f1)
    case (Return r)
    with Cons.prems v have "visitUpload s args rs stop getLocs vu st calls
        = (Return (locs, c, None), calls')" by simp
    then show ?thesis by (rule visitUpload_Return_ok)
  next
    case (Continue st1)
    with Cons.prems v have "localLoop s args rs stop getLocs vus st1 c1
        = (Return (locs, c, None), calls')" by simp
    then show ?thesis by (rule Cons.IH)
  qed
qed

lemma afterLoop_ok:
  assumes "afterLoop s args rs tableName getIDs st calls = ((locs, c, None), calls')"
  shows "c = exhaustedCursor"
  using assms
  by (auto simp: afterLoop_def Let_def split: sum.splits prod.splits)

lemma gatherLocations_ok:
  assumes "gatherLocations s args rs cursor tableName stop getIDs getLocs
             = ((locs, c, None), calls)"
  shows "c = exhaustedCursor"
proof (cases "getVisibleUploadsFromCursor s (Line args) (Character args)
                (CursorsToVisibleUploads cursor) rs")
  case (Inl e)
  with assms show ?thesis by (simp add: gatherLocations_def)
next
  case (Inr r)
  obtain vus cvus where r: "r = (vus, cvus)" by (cases r) auto
  obtain f c1 where l: "localLoop s args rs stop getLocs vus
       \<lparr> allLocations = [], allSymbols = {}, skipPaths = Map.empty \<rparr>
       [CallGetVisibleUploadsFromCursor (Line args) (Character args)
          (CursorsToVisibleUploads cursor)] = (f, c1)"
    by (cases "localLoop s args rs stop getLocs vus
       \<lparr> allLocations = [], allSymbols = {}, skipPaths = Map.empty \<rparr>
       [CallGetVisibleUploadsFromCursor (Line args) (Character args)
          (CursorsToVisibleUploads cursor)]") auto
  show ?thesis
  proof (cases f)
    case (Return res)
    with assms Inr r l have "res = (locs, c, None)"
      by (simp add: gatherLocations_def)
    with l Return show ?thesis using localLoop_Return_ok by blast
  next
    case (Continue st)
    with assms Inr r l have "afterLoop s args rs tableName getIDs st c1
        = ((locs, c, None), calls)"
      by (simp add: gatherLocations_def)
    then show ?thesis by (rule afterLoop_ok)
  qed
qed

lemma addSymbols_eq:
  "addSymbols syms S = S \<union> {x \<in> set syms. \<not> strings_HasPrefix x skipPrefix}"
  unfolding addSymbols_def
  by (induction syms arbitrary: S) auto

lemma yields_simps:
  "lookupAt getLocs args vu = Inl e \<Longrightarrow> \<not> yields getLocs args vu"
  "lookupAt getLocs args vu = Inr (locs, n, syms) \<Longrightarrow> yields getLocs args vu \<longleftrightarrow> locs \<noteq> []"
  by (simp_all add: yields_def)

lemma visitUpload_Continue:
  assumes "visitUpload s args rs stop getLocs vu st calls = (Continue st', calls')"
  shows "skipPaths st'
           = skipPaths st ++ map_of (rev (map skipEntry (filter (yields getLocs args) [vu])))"
    and "\<exists>syms. allSymbols st' = addSymbols syms (allSymbols st)"
    and "\<exists>uls. allLocations st' = allLocations st @ uls \<and>
           (\<forall>locs n syms. lookupAt getLocs args vu = Inr (locs, n, syms) \<and> locs \<noteq> []
              \<longrightarrow> getUploadLocations s args rs locs True = Inr uls)"
proof -
  have "skipPaths st'
           = skipPaths st ++ map_of (rev (map skipEntry (filter (yields getLocs args) [vu])))
      \<and> (\<exists>syms. allSymbols st' = addSymbols syms (allSymbols st))
      \<and> (\<exists>uls. allLocations st' = allLocations st @ uls \<and>
           (\<forall>locs n syms. lookupAt getLocs args vu = Inr (locs, n, syms) \<and> locs \<noteq> []
              \<longrightarrow> getUploadLocations s args rs locs True = Inr uls))"
  proof (cases rule: visitUpload_cases [where getLocs=getLocs and args=args and vu=vu and s=s and rs=rs])
    case (LookupError e)
    with assms show ?thesis by (simp add: visitUpload_lookup_error)
  next
    case (Empty n syms)
    with assms have "st' = st\<lparr> allSymbols := addSymbols syms (allSymbols st) \<rparr>"
      by (simp add: visitUpload_empty)
    with Empty show ?thesis by (auto simp: yields_simps)
  next
    case (AdjustError locs n syms e)
    with assms show ?thesis by (simp add: visitUpload_adjust_error)
  next
    case (Adjusted locs n syms uls)
    show ?thesis
    proof (cases stop)
      case True
      with assms Adjusted show ?thesis by (simp add: visitUpload_stop)
    next
      case False
      with assms Adjusted have "st' = \<lparr> allLocations = allLocations st @ uls,
                         allSymbols = addSymbols syms (allSymbols st),
                         skipPaths = (skipPaths st)
                           (ID (Upload vu) \<mapsto> visibleUpload.TargetPathWithoutRoot vu) \<rparr>"
        by (simp add: visitUpload_accumulate)
      with Adjusted show ?thesis by (auto simp: yields_simps skipEntry_def)
    qed
  qed
  then show "skipPaths st'
           = skipPaths st ++ map_of (rev (map skipEntry (filter (yields getLocs args) [vu])))"
    and "\<exists>syms. allSymbols st' = addSymbols syms (allSymbols st)"
    and "\<exists>uls. allLocations st' = allLocations st @ uls \<and>
           (\<forall>locs n syms. lookupAt getLocs args vu = Inr (locs, n, syms) \<and> locs \<noteq> []
              \<longrightarrow> getUploadLocations s args rs locs True = Inr uls)"
    by blast+
qed

lemma localLoop_Cons_Continue:
  assumes "localLoop s args rs stop getLocs (vu # vus) st calls = (Continue st', calls')"
  obtains st1 c1 where "visitUpload s args rs stop getLocs vu st calls = (Continue st1, c1)"
    and "localLoop s args rs stop getLocs vus st1 c1 = (Continue st', calls')"
proof -
  obtain f1 c1 where v: "visitUpload s args rs stop getLocs vu st calls = (f1, c1)"
    by (cases "visitUpload s args rs stop getLocs vu st calls") auto
  show thesis
  proof (cases f1)
    case (Return r)
    with assms v show ?thesis by simp
  next
    case (Continue st1)
    with assms v that show ?thesis by simp
  qed
qed


lemma localLoop_symbols:
  "localLoop s args rs stop getLocs vus st calls = (Continue st', calls')
     \<Longrightarrow> (finite (allSymbols st) \<longrightarrow> finite (allSymbols st')) \<and>
         (\<forall>x \<in> allSymbols st'. x \<in> allSymbols st \<or> \<not> strings_HasPrefix x skipPrefix)"
proof (induction vus arbitrary: st calls)
  case Nil
  then show ?case by simp
next
  case (Cons vu vus)
  from Cons.prems obtain st1 c1 where
    v: "visitUpload s args rs stop getLocs vu st calls = (Continue st1, c1)" and
    l: "localLoop s args rs stop getLocs vus st1 c1 = (Continue st', calls')"
    by (rule localLoop_Cons_Continue)
  from visitUpload_Continue(2) [OF v] obtain syms where
    "allSymbols st1 = addSymbols syms (allSymbols st)" by blast
  then have 1: "allSymbols st1
       = allSymbols st \<union> {x \<in> set syms. \<not> strings_HasPrefix x skipPrefix}"
    by (simp add: addSymbols_eq)
  from Cons.IH [OF l] 1 show ?case by auto
qed

lemma localLoop_locations:
  "localLoop s args rs stop getLocs vus st calls = (Continue st', calls')
     \<Longrightarrow> set (allLocations st) \<subseteq> set (allLocations st') \<and>
         (\<forall>vu \<in> set vus. \<forall>locs n syms uls.
            lookupAt getLocs args vu = Inr (locs, n, syms) \<and> locs \<noteq> [] \<and>
            getUploadLocations s args rs locs True = Inr uls
              \<longrightarrow> set uls \<subseteq> set (allLocations st'))"
proof (induction vus arbitrary: st calls)
  case Nil
  then show ?case by simp
next
  case (Cons vu vus)
  from Cons.prems obtain st1 c1 where
    v: "visitUpload s args rs stop getLocs vu st calls = (Continue st1, c1)" and
    l: "localLoop s args rs stop getLocs vus st1 c1 = (Continue st', calls')"
    by (rule localLoop_Cons_Continue)
  from visitUpload_Continue(3) [OF v] obtain uls1 where
    a: "allLocations st1 = allLocations st @ uls1" and
    b: "\<forall>locs n syms. lookupAt getLocs args vu = Inr (locs, n, syms) \<and> locs \<noteq> []
              \<longrightarrow> getUploadLocations s args rs locs True = Inr uls1" by blast
  from Cons.IH [OF l] have
    c: "set (allLocations st1) \<subseteq> set (allLocations st')" and
    d: "\<forall>vu \<in> set vus. \<forall>locs n syms uls.
            lookupAt getLocs args vu = Inr (locs, n, syms) \<and> locs \<noteq> [] \<and>
            getUploadLocations s args rs locs True = Inr uls
              \<longrightarrow> set uls \<subseteq> set (allLocations st')" by blast+
  have e: "set uls \<subseteq> set (allLocations st')"
    if "lookupAt getLocs args vu = Inr (locs, n, syms)" "locs \<noteq> []"
       "getUploadLocations s args rs locs True = Inr uls" for locs n syms uls
  proof -
    from b that have "uls = uls1" by auto
    with a c show ?thesis by auto
  qed
  from a c have "set (allLocations st) \<subseteq> set (allLocations st')" by auto
  with d e show ?case by auto
qed

lemma symbolsToMonikers_identifiers:
  "symbolsToMonikers parse names = Inr ms
     \<Longrightarrow> map (\<lambda>m. Identifier (MonikerData m)) ms = names"
  by (induction names arbitrary: ms) (auto split: sum.splits)



section \<open>The traversal: after the loop\<close>

lemma gatherLocations_cases:
  fixes s args rs cursor tableName stop getIDs getLocs
  defines "G \<equiv> gatherLocations s args rs cursor tableName stop getIDs getLocs"
      and "vis \<equiv> getVisibleUploadsFromCursor s (Line args) (Character args)
                   (CursorsToVisibleUploads cursor) rs"
      and "c0 \<equiv> [CallGetVisibleUploadsFromCursor (Line args) (Character args)
                   (CursorsToVisibleUploads cursor)]"
      and "st0 \<equiv> \<lparr> allLocations = [], allSymbols = {}, skipPaths = Map.empty \<rparr>"
  obtains (VisibleError) e where "vis = Inl e" "G = (([], cursor, Some e), c0)"
  | (Returned) vus cvus r c1 where "vis = Inr (vus, cvus)"
      "localLoop s args rs stop getLocs vus st0 c0 = (Return r, c1)" "G = (r, c1)"
  | (Continued) vus cvus st c1 where "vis = Inr (vus, cvus)"
      "localLoop s args rs stop getLocs vus st0 c0 = (Continue st, c1)"
      "G = afterLoop s args rs tableName getIDs st c1"
proof (cases vis)
  case (Inl e)
  then have "G = (([], cursor, Some e), c0)"
    by (simp add: G_def vis_def c0_def gatherLocations_def)
  with Inl show ?thesis by (rule VisibleError)
next
  case (Inr p)
  obtain vus cvus where p: "p = (vus, cvus)" by (cases p) auto
  obtain f c1 where l: "localLoop s args rs stop getLocs vus st0 c0 = (f, c1)"
    by (cases "localLoop s args rs stop getLocs vus st0 c0") auto
  show ?thesis
  proof (cases f)
    case (Return r)
    with Inr p l have "G = (r, c1)"
      by (simp add: G_def vis_def c0_def st0_def gatherLocations_def)
    with Inr p l Return show ?thesis by (auto intro: Returned)
  next
    case (Continue st)
    with Inr p l have "G = afterLoop s args rs tableName getIDs st c1"
      by (simp add: G_def vis_def c0_def st0_def gatherLocations_def)
    with Inr p l Continue show ?thesis by (auto intro: Continued)
  qed
qed

lemma afterLoop_calls_prefix:
  "\<exists>new. snd (afterLoop s args rs tableName getIDs st calls) = calls @ new"
  by (auto simp: afterLoop_def Let_def split: sum.splits prod.splits)

lemma afterLoop_parse_call:
  "CallSymbolsToMonikers (sorted_list_of_set (allSymbols st))
     \<in> set (snd (afterLoop s args rs tableName getIDs st calls))"
  by (auto simp: afterLoop_def Let_def split: sum.splits prod.splits)

lemma afterLoop_parse_call_only:
  assumes "CallSymbolsToMonikers names \<in> set (snd (afterLoop s args rs tableName getIDs st calls))"
      and "CallSymbolsToMonikers names \<notin> set calls"
  shows "names = sorted_list_of_set (allSymbols st)"
  using assms by (auto simp: afterLoop_def Let_def split: sum.splits prod.splits)

lemma afterLoop_ids_call:
  assumes "CallGetSearchableUploadIDs ms \<in> set (snd (afterLoop s args rs tableName getIDs st calls))"
      and "CallGetSearchableUploadIDs ms \<notin> set calls"
  shows "symbolsToMonikers (ParseSymbol s) (sorted_list_of_set (allSymbols st)) = Inr ms"
  using assms by (auto simp: afterLoop_def Let_def split: sum.splits prod.splits)



lemma afterLoop_success:
  assumes "afterLoop s args rs tableName getIDs st calls = ((locs, c, None), calls')"
  shows "\<exists>adjusted. locs = allLocations st @ adjusted"
  using assms by (auto simp: afterLoop_def Let_def split: sum.splits prod.splits)


lemma local_calls_exclude:
  assumes "list_all isLocalCall new"
  shows "CallSymbolsToMonikers names \<notin> set new"
    and "CallGetSearchableUploadIDs ms \<notin> set new"
    and "CallGetMinimalBulkMonikerLocations t ids skip margs limit offset \<notin> set new"
    and "CallGetUploadLocations locs False \<notin> set new"
  using assms by (auto simp: list_all_iff)

section \<open>The example service, evaluated\<close>

lemma example_lookupAt:
  "lookupAt exampleLookup exampleArgs vu
     = Inr ([exampleLocation (ID (Upload vu)) (visibleUpload.TargetPathWithoutRoot vu)], 1,
            [''lsif . foo'', exampleSymbol])"
  by (simp add: lookupAt_def exampleLookup_def exampleArgs_def)

lemma example_addSymbols:
  "addSymbols [''lsif . foo'', exampleSymbol] S = insert exampleSymbol S"
  by (simp add: addSymbols_def strings_HasPrefix_def skipPrefix_def exampleSymbol_def)

lemma example_visit:
  "visitUpload exampleService exampleArgs exampleState False exampleLookup vu st calls
     = (Continue \<lparr> allLocations = allLocations st @
                      [exampleAdjust exampleArgs
                         (exampleLocation (ID (Upload vu)) (visibleUpload.TargetPathWithoutRoot vu))],
                   allSymbols = insert exampleSymbol (allSymbols st),
                   skipPaths = (skipPaths st)
                     (ID (Upload vu) \<mapsto> visibleUpload.TargetPathWithoutRoot vu) \<rparr>,
        calls @ [positionCall exampleArgs vu,
                 CallGetUploadLocations
                   [exampleLocation (ID (Upload vu)) (visibleUpload.TargetPathWithoutRoot vu)] True])"
  using visitUpload_accumulate [of exampleLookup exampleArgs vu
          "[exampleLocation (ID (Upload vu)) (visibleUpload.TargetPathWithoutRoot vu)]" 1
          "[''lsif . foo'', exampleSymbol]" exampleService exampleState
          "[exampleAdjust exampleArgs
              (exampleLocation (ID (Upload vu)) (visibleUpload.TargetPathWithoutRoot vu))]" st calls]
  by (simp add: example_lookupAt example_addSymbols exampleService_def)

lemma example_loop:
  "localLoop exampleService exampleArgs exampleState False exampleLookup [uploadA, uploadB]
       \<lparr> allLocations = [], allSymbols = {}, skipPaths = Map.empty \<rparr> calls
     = (Continue \<lparr> allLocations = [exampleAdjust exampleArgs (exampleLocation 1 ''main.go''),
                                   exampleAdjust exampleArgs (exampleLocation 2 ''cmd/main.go'')],
                   allSymbols = {exampleSymbol},
                   skipPaths = [1 \<mapsto> ''main.go'', 2 \<mapsto> ''cmd/main.go''] \<rparr>,
        calls @ [positionCall exampleArgs uploadA,
                 CallGetUploadLocations [exampleLocation 1 ''main.go''] True,
                 positionCall exampleArgs uploadB,
                 CallGetUploadLocations [exampleLocation 2 ''cmd/main.go''] True])"
  by (simp add: example_visit) (simp add: uploadA_def uploadB_def)

lemma example_parse:
  "symbolsToMonikers exampleParse [exampleSymbol] = Inr [exampleMoniker]"
  by (simp add: exampleParse_def exampleSymbol_def exampleMoniker_def strings_HasPrefix_def)

lemma example_references_factory:
  "makeReferencesUploadFactory exampleService args rs ms = Inr [9, 10]"
  by (simp add: makeReferencesUploadFactory_def exampleService_def)

lemma example_definition_factory:
  "makeDefinitionUploadFactory exampleService rs ms = Inr [9]"
  by (simp add: makeDefinitionUploadFactory_def exampleService_def)

lemma example_remote:
  "exampleRemote [1 \<mapsto> ''main.go'', 2 \<mapsto> ''cmd/main.go''] = [exampleLocation 9 ''dep.go'']"
  "exampleRemote Map.empty = [exampleLocation 9 ''dep.go'', exampleLocation 1 ''main.go'']"
  by (simp_all add: exampleRemote_def exampleLocation_def)

lemma example_after:
  "afterLoop exampleService args exampleState t getIDs
       \<lparr> allLocations = locs, allSymbols = {exampleSymbol}, skipPaths = skip \<rparr> calls
     = (case getIDs [exampleMoniker] of
          Inl err \<Rightarrow> (([], zeroGenericCursor, Some err),
                       calls @ [CallSymbolsToMonikers [exampleSymbol],
                                CallGetSearchableUploadIDs [exampleMoniker]])
        | Inr ids \<Rightarrow>
           ((locs @ map (exampleAdjust args) (exampleRemote skip), exhaustedCursor, None),
            calls @ [CallSymbolsToMonikers [exampleSymbol],
                     CallGetSearchableUploadIDs [exampleMoniker],
                     CallGetMinimalBulkMonikerLocations t ids skip
                       [\<lparr> Scheme = ''scip-go'', Identifier = exampleSymbol \<rparr>] 10000 0,
                     CallGetUploadLocations (exampleRemote skip) False]))"
proof -
  have p: "ParseSymbol exampleService = exampleParse"
          "GetMinimalBulkMonikerLocations exampleService = exampleBulk"
          "getUploadLocations exampleService
             = (\<lambda>args requestState locations local. Inr (map (exampleAdjust args) locations))"
    by (simp_all add: exampleService_def)
  have m: "map MonikerData [exampleMoniker]
             = [\<lparr> Scheme = ''scip-go'', Identifier = exampleSymbol \<rparr>]"
    by (simp add: exampleMoniker_def)
  show ?thesis
    by (simp add: afterLoop_def Let_def p example_parse exampleBulk_def m
             del: symbolsToMonikers.simps list.map split: sum.split)
qed

lemma example_gather:
  assumes "getIDs [exampleMoniker] = Inr ids"
  shows "gatherLocations exampleService exampleArgs exampleState cursor t False getIDs exampleLookup
     = (([exampleAdjust exampleArgs (exampleLocation 1 ''main.go''),
          exampleAdjust exampleArgs (exampleLocation 2 ''cmd/main.go''),
          exampleAdjust exampleArgs (exampleLocation 9 ''dep.go'')],
         exhaustedCursor, None),
        [CallGetVisibleUploadsFromCursor 3 4 (CursorsToVisibleUploads cursor),
         positionCall exampleArgs uploadA,
         CallGetUploadLocations [exampleLocation 1 ''main.go''] True,
         positionCall exampleArgs uploadB,
         CallGetUploadLocations [exampleLocation 2 ''cmd/main.go''] True,
         CallSymbolsToMonikers [exampleSymbol],
         CallGetSearchableUploadIDs [exampleMoniker],
         CallGetMinimalBulkMonikerLocations t ids
           [1 \<mapsto> ''main.go'', 2 \<mapsto> ''cmd/main.go'']
           [\<lparr> Scheme = ''scip-go'', Identifier = exampleSymbol \<rparr>] 10000 0,
         CallGetUploadLocations [exampleLocation 9 ''dep.go''] False])"
proof -
  have v: "getVisibleUploadsFromCursor exampleService (Line exampleArgs) (Character exampleArgs)
             (CursorsToVisibleUploads cursor) exampleState
           = Inr ([uploadA, uploadB], CursorsToVisibleUploads cursor)"
    by (simp add: exampleService_def)
  have a: "Line exampleArgs = 3" "Character exampleArgs = 4"
    by (simp_all add: exampleArgs_def)
  show ?thesis
    unfolding gatherLocations_def Let_def v
    by (simp add: example_loop example_after example_remote assms a del: localLoop.simps)
qed

lemma example_references:
  "NewGetReferences exampleService exampleArgs exampleState cursor
     = (([exampleAdjust exampleArgs (exampleLocation 1 ''main.go''),
          exampleAdjust exampleArgs (exampleLocation 2 ''cmd/main.go''),
          exampleAdjust exampleArgs (exampleLocation 9 ''dep.go'')],
         exhaustedCursor, None),
        [CallGetVisibleUploadsFromCursor 3 4 (CursorsToVisibleUploads cursor),
         positionCall exampleArgs uploadA,
         CallGetUploadLocations [exampleLocation 1 ''main.go''] True,
         positionCall exampleArgs uploadB,
         CallGetUploadLocations [exampleLocation 2 ''cmd/main.go''] True,
         CallSymbolsToMonikers [exampleSymbol],
         CallGetSearchableUploadIDs [exampleMoniker],
         CallGetMinimalBulkMonikerLocations ''references'' [9, 10]
           [1 \<mapsto> ''main.go'', 2 \<mapsto> ''cmd/main.go'']
           [\<lparr> Scheme = ''scip-go'', Identifier = exampleSymbol \<rparr>] 10000 0,
         CallGetUploadLocations [exampleLocation 9 ''dep.go''] False])"
proof -
  have l: "ExtractReferenceLocationsFromPosition exampleService = exampleLookup"
    by (simp add: exampleService_def)
  show ?thesis
    unfolding NewGetReferences_def l
    by (rule example_gather) (rule example_references_factory)
qed

lemma example_implementations:
  "NewGetImplementations exampleService exampleArgs exampleState cursor
     = (([exampleAdjust exampleArgs (exampleLocation 1 ''main.go''),
          exampleAdjust exampleArgs (exampleLocation 2 ''cmd/main.go''),
          exampleAdjust exampleArgs (exampleLocation 9 ''dep.go'')],
         exhaustedCursor, None),
        [CallGetVisibleUploadsFromCursor 3 4 (CursorsToVisibleUploads cursor),
         positionCall exampleArgs uploadA,
         CallGetUploadLocations [exampleLocation 1 ''main.go''] True,
         positionCall exampleArgs uploadB,
         CallGetUploadLocations [exampleLocation 2 ''cmd/main.go''] True,
         CallSymbolsToMonikers [exampleSymbol],
         CallGetSearchableUploadIDs [exampleMoniker],
         CallGetMinimalBulkMonikerLocations ''implementations'' [9, 10]
           [1 \<mapsto> ''main.go'', 2 \<mapsto> ''cmd/main.go'']
           [\<lparr> Scheme = ''scip-go'', Identifier = exampleSymbol \<rparr>] 10000 0,
         CallGetUploadLocations [exampleLocation 9 ''dep.go''] False])"
proof -
  have l: "ExtractImplementationLocationsFromPosition exampleService = exampleLookup"
    by (simp add: exampleService_def)
  show ?thesis
    unfolding NewGetImplementations_def l
    by (rule example_gather) (rule example_references_factory)
qed

lemma example_prototypes:
  "NewGetPrototypes exampleService exampleArgs exampleState cursor
     = (([exampleAdjust exampleArgs (exampleLocation 1 ''main.go''),
          exampleAdjust exampleArgs (exampleLocation 2 ''cmd/main.go''),
          exampleAdjust exampleArgs (exampleLocation 9 ''dep.go'')],
         exhaustedCursor, None),
        [CallGetVisibleUploadsFromCursor 3 4 (CursorsToVisibleUploads cursor),
         positionCall exampleArgs uploadA,
         CallGetUploadLocations [exampleLocation 1 ''main.go''] True,
         positionCall exampleArgs uploadB,
         CallGetUploadLocations [exampleLocation 2 ''cmd/main.go''] True,
         CallSymbolsToMonikers [exampleSymbol],
         CallGetSearchableUploadIDs [exampleMoniker],
         CallGetMinimalBulkMonikerLocations ''definitions'' [9]
           [1 \<mapsto> ''main.go'', 2 \<mapsto> ''cmd/main.go'']
           [\<lparr> Scheme = ''scip-go'', Identifier = exampleSymbol \<rparr>] 10000 0,
         CallGetUploadLocations [exampleLocation 9 ''dep.go''] False])"
proof -
  have l: "ExtractPrototypeLocationsFromPosition exampleService = exampleLookup"
    by (simp add: exampleService_def)
  show ?thesis
    unfolding NewGetPrototypes_def l
    by (rule example_gather) (rule example_definition_factory)
qed

lemma result_simps:
  "resultLocations ((l, c, e), calls) = l"
  "resultCursor ((l, c, e), calls) = c"
  "resultError ((l, c, e), calls) = e"
  "resultCalls ((l, c, e), calls) = calls"
  by (simp_all add: resultLocations_def resultCursor_def resultError_def resultCalls_def)

lemma result_eq:
  "r = ((resultLocations r, resultCursor r, resultError r), resultCalls r)"
  by (simp add: resultLocations_def resultCursor_def resultError_def resultCalls_def)

section \<open>Claims about the traversal\<close>

text \<open>
  C4. Every call of the shared traversal that returns no error returns the terminal
  cursor \<open>exhaustedCursor\<close>, whose phase is \<open>done\<close>, whatever the input cursor, the
  mode and the collaborators' answers; so does every successful \<open>NewGetReferences\<close>,
  \<open>NewGetImplementations\<close> and \<open>NewGetPrototypes\<close>.
\<close>

theorem successful_page_is_final:
  "(resultError (gatherLocations s args rs cursor tableName stop getIDs getLocs) = None
      \<longrightarrow> resultCursor (gatherLocations s args rs cursor tableName stop getIDs getLocs)
            = exhaustedCursor) \<and>
   (resultError (NewGetReferences s args rs cursor) = None
      \<longrightarrow> resultCursor (NewGetReferences s args rs cursor) = exhaustedCursor) \<and>
   (resultError (NewGetImplementations s args rs cursor) = None
      \<longrightarrow> resultCursor (NewGetImplementations s args rs cursor) = exhaustedCursor) \<and>
   (resultError (NewGetPrototypes s args rs cursor) = None
      \<longrightarrow> resultCursor (NewGetPrototypes s args rs cursor) = exhaustedCursor) \<and>
   GenericCursor.Phase exhaustedCursor = ''done''"
proof -
  have g: "resultCursor (gatherLocations s args rs cursor t stop' ids locs) = exhaustedCursor"
    if "resultError (gatherLocations s args rs cursor t stop' ids locs) = None"
    for t stop' ids locs
  proof -
    let ?r = "gatherLocations s args rs cursor t stop' ids locs"
    have "?r = ((resultLocations ?r, resultCursor ?r, None), resultCalls ?r)"
      using result_eq [of ?r] that by simp
    then show ?thesis by (rule gatherLocations_ok)
  qed
  show ?thesis
    using g by (simp add: NewGetReferences_def NewGetImplementations_def NewGetPrototypes_def
                          exhaustedCursor_def)
qed

theorem successful_page_is_final_witness:
  "resultError (NewGetReferences exampleService exampleArgs exampleState zeroGenericCursor) = None \<and>
   resultLocations (NewGetReferences exampleService exampleArgs exampleState zeroGenericCursor)
     = [exampleAdjust exampleArgs (exampleLocation 1 ''main.go''),
        exampleAdjust exampleArgs (exampleLocation 2 ''cmd/main.go''),
        exampleAdjust exampleArgs (exampleLocation 9 ''dep.go'')] \<and>
   resultCursor (NewGetReferences exampleService exampleArgs exampleState zeroGenericCursor)
     = exhaustedCursor"
  using successful_page_is_final [of exampleService exampleArgs exampleState zeroGenericCursor]
  by (simp add: example_references result_simps)





lemma localLoop_stops_at_first:
  assumes "\<forall>u \<in> set pre. \<exists>n syms. lookupAt getLocs args u = Inr ([], n, syms)"
      and "lookupAt getLocs args vu = Inr (locs, n, syms)" "locs \<noteq> []"
      and "getUploadLocations s args rs locs True = Inr uls"
  shows "localLoop s args rs True getLocs (pre @ vu # post) st calls
           = (Return (uls, exhaustedCursor, None),
              calls @ map (positionCall args) (pre @ [vu]) @ [CallGetUploadLocations locs True])"
  using assms(1)
proof (induction pre arbitrary: st calls)
  case Nil
  show ?case
    using visitUpload_stop [OF assms(2,3,4), of st calls] by simp
next
  case (Cons u pre)
  then obtain n' syms' where u: "lookupAt getLocs args u = Inr ([], n', syms')" by auto
  have "\<forall>u \<in> set pre. \<exists>n syms. lookupAt getLocs args u = Inr ([], n, syms)"
    using Cons.prems by simp
  from Cons.IH [OF this] show ?case
    by (simp add: visitUpload_empty [OF u])
qed

text \<open>
  C2, amended. When the traversal runs with \<open>stopAfterFirstResult\<close>, which among the
  four operations only \<open>NewGetDefinitions\<close> does, and the visible uploads before \<open>vu\<close>
  yield no location while \<open>vu\<close> yields some whose adjustment succeeds, the call returns
  exactly those adjusted locations with the \<open>done\<close> cursor; the calls it made are the
  visible-upload resolution, the positional lookups up to \<open>vu\<close> and the one adjustment:
  no upload after \<open>vu\<close> is queried.
\<close>

theorem stop_after_first_result:
  assumes "getVisibleUploadsFromCursor s (Line args) (Character args)
             (CursorsToVisibleUploads cursor) rs = Inr (pre @ vu # post, cvus)"
      and "\<forall>u \<in> set pre. \<exists>n syms. lookupAt getLocs args u = Inr ([], n, syms)"
      and "lookupAt getLocs args vu = Inr (locs, n, syms)"
      and "locs \<noteq> []"
      and "getUploadLocations s args rs locs True = Inr uls"
  shows "gatherLocations s args rs cursor tableName True getIDs getLocs
           = ((uls, exhaustedCursor, None),
              CallGetVisibleUploadsFromCursor (Line args) (Character args)
                (CursorsToVisibleUploads cursor)
              # map (positionCall args) (pre @ [vu]) @ [CallGetUploadLocations locs True]) \<and>
         (cursor = zeroGenericCursor \<and> getLocs = ExtractDefinitionLocationsFromPosition s
            \<longrightarrow> NewGetDefinitions s args rs
                  = ((uls, None),
                     CallGetVisibleUploadsFromCursor (Line args) (Character args) []
                     # map (positionCall args) (pre @ [vu]) @ [CallGetUploadLocations locs True]))"
proof -
  have g: "gatherLocations s args rs cursor t True ids getLocs
           = ((uls, exhaustedCursor, None),
              CallGetVisibleUploadsFromCursor (Line args) (Character args)
                (CursorsToVisibleUploads cursor)
              # map (positionCall args) (pre @ [vu]) @ [CallGetUploadLocations locs True])"
    for t ids
    unfolding gatherLocations_def Let_def assms(1)
    by (simp add: localLoop_stops_at_first [OF assms(2,3,4,5)] del: localLoop.simps)
  show ?thesis
    using g by (auto simp: NewGetDefinitions_def zeroGenericCursor_def)
qed

theorem stop_after_first_result_witness:
  "NewGetDefinitions exampleService exampleArgs exampleState
     = (([exampleAdjust exampleArgs (exampleLocation 1 ''main.go'')], None),
        [CallGetVisibleUploadsFromCursor 3 4 [], positionCall exampleArgs uploadA,
         CallGetUploadLocations [exampleLocation 1 ''main.go''] True]) \<and>
   positionCall exampleArgs uploadB
     \<notin> set (snd (NewGetDefinitions exampleService exampleArgs exampleState))"
proof -
  have v: "getVisibleUploadsFromCursor exampleService (Line exampleArgs) (Character exampleArgs)
             (CursorsToVisibleUploads zeroGenericCursor) exampleState
           = Inr ([] @ uploadA # [uploadB], [])"
    by (simp add: exampleService_def zeroGenericCursor_def)
  have p: "\<forall>u \<in> set []. \<exists>n syms. lookupAt exampleLookup exampleArgs u = Inr ([], n, syms)"
    by simp
  have l: "lookupAt exampleLookup exampleArgs uploadA
             = Inr ([exampleLocation 1 ''main.go''], 1, [''lsif . foo'', exampleSymbol])"
    by (simp add: example_lookupAt uploadA_def)
  have a: "getUploadLocations exampleService exampleArgs exampleState
             [exampleLocation 1 ''main.go''] True
           = Inr [exampleAdjust exampleArgs (exampleLocation 1 ''main.go'')]"
    by (simp add: exampleService_def)
  have d: "ExtractDefinitionLocationsFromPosition exampleService = exampleLookup"
    by (simp add: exampleService_def)
  have n: "positionCall exampleArgs uploadB \<noteq> positionCall exampleArgs uploadA"
    by (simp add: positionCall_def uploadA_def uploadB_def)
  have la: "Line exampleArgs = 3" "Character exampleArgs = 4"
    by (simp_all add: exampleArgs_def)
  show ?thesis
    using stop_after_first_result [OF v p l _ a, of "''definitions''"
            "makeDefinitionUploadFactory exampleService exampleState"] n
    by (simp add: d la positionCall_def)
qed

text \<open>
  C2, as stated, fails for implementations and prototypes: both pass \<open>false\<close> for
  \<open>stopAfterFirstResult\<close>. On the example service the first visible upload yields a
  location, and both operations still query the second upload and return the locations of
  both and of the remote phase.
\<close>

theorem implementations_and_prototypes_visit_every_upload:
  "getVisibleUploadsFromCursor exampleService (Line exampleArgs) (Character exampleArgs)
     (CursorsToVisibleUploads zeroGenericCursor) exampleState = Inr ([uploadA, uploadB], []) \<and>
   yields (ExtractImplementationLocationsFromPosition exampleService) exampleArgs uploadA \<and>
   positionCall exampleArgs uploadB
     \<in> set (resultCalls
          (NewGetImplementations exampleService exampleArgs exampleState zeroGenericCursor)) \<and>
   resultLocations (NewGetImplementations exampleService exampleArgs exampleState zeroGenericCursor)
     = [exampleAdjust exampleArgs (exampleLocation 1 ''main.go''),
        exampleAdjust exampleArgs (exampleLocation 2 ''cmd/main.go''),
        exampleAdjust exampleArgs (exampleLocation 9 ''dep.go'')] \<and>
   yields (ExtractPrototypeLocationsFromPosition exampleService) exampleArgs uploadA \<and>
   positionCall exampleArgs uploadB
     \<in> set (resultCalls
          (NewGetPrototypes exampleService exampleArgs exampleState zeroGenericCursor)) \<and>
   resultLocations (NewGetPrototypes exampleService exampleArgs exampleState zeroGenericCursor)
     = [exampleAdjust exampleArgs (exampleLocation 1 ''main.go''),
        exampleAdjust exampleArgs (exampleLocation 2 ''cmd/main.go''),
        exampleAdjust exampleArgs (exampleLocation 9 ''dep.go'')]"
proof -
  have y: "yields exampleLookup exampleArgs uploadA"
    by (simp add: yields_def example_lookupAt)
  have d: "ExtractImplementationLocationsFromPosition exampleService = exampleLookup"
          "ExtractPrototypeLocationsFromPosition exampleService = exampleLookup"
    by (simp_all add: exampleService_def)
  have v: "getVisibleUploadsFromCursor exampleService (Line exampleArgs) (Character exampleArgs)
     (CursorsToVisibleUploads zeroGenericCursor) exampleState = Inr ([uploadA, uploadB], [])"
    by (simp add: exampleService_def zeroGenericCursor_def)
  show ?thesis
    by (simp add: example_implementations example_prototypes result_simps y d v)
qed

text \<open>Where the calls after the loop come from.\<close>

lemma gatherLocations_after_calls:
  assumes c: "c \<in> set (resultCalls (gatherLocations s args rs cursor tableName stop getIDs getLocs))"
      and nl: "\<not> isLocalCall c"
      and nv: "c \<noteq> CallGetVisibleUploadsFromCursor (Line args) (Character args)
                     (CursorsToVisibleUploads cursor)"
  obtains vus cvus st c1 where
      "getVisibleUploadsFromCursor s (Line args) (Character args)
         (CursorsToVisibleUploads cursor) rs = Inr (vus, cvus)"
      "localLoop s args rs stop getLocs vus
         \<lparr> allLocations = [], allSymbols = {}, skipPaths = Map.empty \<rparr>
         [CallGetVisibleUploadsFromCursor (Line args) (Character args)
            (CursorsToVisibleUploads cursor)] = (Continue st, c1)"
      "gatherLocations s args rs cursor tableName stop getIDs getLocs
         = afterLoop s args rs tableName getIDs st c1"
      "c \<in> set (snd (afterLoop s args rs tableName getIDs st c1))" "c \<notin> set c1"
proof (cases rule: gatherLocations_cases
    [where s=s and args=args and rs=rs and cursor=cursor and tableName=tableName
       and stop=stop and getIDs=getIDs and getLocs=getLocs])
  case (VisibleError e)
  with c nv show ?thesis by (simp add: resultCalls_def)
next
  case (Returned vus cvus r c1)
  then have l: "localLoop s args rs stop getLocs vus
         \<lparr> allLocations = [], allSymbols = {}, skipPaths = Map.empty \<rparr>
         [CallGetVisibleUploadsFromCursor (Line args) (Character args)
            (CursorsToVisibleUploads cursor)] = (Return r, c1)" by simp
  from localLoop_calls [OF l] obtain new where
    n: "c1 = [CallGetVisibleUploadsFromCursor (Line args) (Character args)
            (CursorsToVisibleUploads cursor)] @ new" "list_all isLocalCall new" by blast
  from c Returned(3) have "c \<in> set c1" by (simp add: resultCalls_def)
  with n nl nv show ?thesis by (auto simp: list_all_iff)
next
  case (Continued vus cvus st c1)
  then have l: "localLoop s args rs stop getLocs vus
         \<lparr> allLocations = [], allSymbols = {}, skipPaths = Map.empty \<rparr>
         [CallGetVisibleUploadsFromCursor (Line args) (Character args)
            (CursorsToVisibleUploads cursor)] = (Continue st, c1)" by simp
  from localLoop_calls [OF l] obtain new where
    n: "c1 = [CallGetVisibleUploadsFromCursor (Line args) (Character args)
            (CursorsToVisibleUploads cursor)] @ new" "list_all isLocalCall new" by blast
  from n nl nv have 1: "c \<notin> set c1" by (auto simp: list_all_iff)
  from c Continued(3) have 2: "c \<in> set (snd (afterLoop s args rs tableName getIDs st c1))"
    by (simp add: resultCalls_def)
  from Continued(1) l Continued(3) 2 1 show ?thesis by (rule that)
qed










lemma local_phase_symbols:
  assumes "localLoop s args rs stop getLocs vus
             \<lparr> allLocations = [], allSymbols = {}, skipPaths = Map.empty \<rparr> calls
           = (Continue st, calls')"
  shows "set (sorted_list_of_set (allSymbols st)) = allSymbols st"
    and "\<forall>x \<in> allSymbols st. \<not> strings_HasPrefix x skipPrefix"
  using localLoop_symbols [OF assms] by auto

text \<open>
  C5. No symbol name that starts with the marker prefix \<open>lsif .\<close> is among the names
  that the traversal hands to \<open>symbolsToMonikers\<close>, and none is the identifier of a
  moniker that it hands to the search for uploads. The locations that a lookup reported
  next to such a name are returned all the same: in the accumulating mode the adjusted
  locations of every visible upload that yielded some are part of a successful result,
  and with \<open>stopAfterFirstResult\<close> the adjusted locations of the first such upload are
  the result, whatever symbol names came with them.
\<close>

theorem marker_symbols_excluded:
  "(\<forall>names. CallSymbolsToMonikers names
       \<in> set (resultCalls (gatherLocations s args rs cursor tableName stop getIDs getLocs))
     \<longrightarrow> (\<forall>x \<in> set names. \<not> strings_HasPrefix x skipPrefix)) \<and>
   (\<forall>ms. CallGetSearchableUploadIDs ms
       \<in> set (resultCalls (gatherLocations s args rs cursor tableName stop getIDs getLocs))
     \<longrightarrow> (\<forall>m \<in> set ms. \<not> strings_HasPrefix (Identifier (MonikerData m)) skipPrefix)) \<and>
   (\<not> stop \<and>
    resultError (gatherLocations s args rs cursor tableName stop getIDs getLocs) = None \<and>
    getVisibleUploadsFromCursor s (Line args) (Character args)
      (CursorsToVisibleUploads cursor) rs = Inr (vus, cvus) \<and>
    vu \<in> set vus \<and> lookupAt getLocs args vu = Inr (locs, n, syms) \<and> locs \<noteq> [] \<and>
    getUploadLocations s args rs locs True = Inr uls
     \<longrightarrow> set uls
           \<subseteq> set (resultLocations
                  (gatherLocations s args rs cursor tableName stop getIDs getLocs))) \<and>
   (stop \<and>
    getVisibleUploadsFromCursor s (Line args) (Character args)
      (CursorsToVisibleUploads cursor) rs = Inr (pre @ vu # post, cvus) \<and>
    (\<forall>u \<in> set pre. \<exists>n syms. lookupAt getLocs args u = Inr ([], n, syms)) \<and>
    lookupAt getLocs args vu = Inr (locs, n, syms) \<and> locs \<noteq> [] \<and>
    getUploadLocations s args rs locs True = Inr uls
     \<longrightarrow> resultLocations (gatherLocations s args rs cursor tableName stop getIDs getLocs)
           = uls)"
proof -
  let ?G = "gatherLocations s args rs cursor tableName stop getIDs getLocs"
  let ?v = "CallGetVisibleUploadsFromCursor (Line args) (Character args)
              (CursorsToVisibleUploads cursor)"
  have 1: "\<not> strings_HasPrefix x skipPrefix"
    if c: "CallSymbolsToMonikers names \<in> set (resultCalls ?G)" and x: "x \<in> set names"
    for names x
  proof -
    have "\<not> isLocalCall (CallSymbolsToMonikers names)" "CallSymbolsToMonikers names \<noteq> ?v"
      by simp_all
    with c obtain vus' st c1 where
      l: "localLoop s args rs stop getLocs vus'
            \<lparr> allLocations = [], allSymbols = {}, skipPaths = Map.empty \<rparr> [?v]
          = (Continue st, c1)" and
      a: "CallSymbolsToMonikers names \<in> set (snd (afterLoop s args rs tableName getIDs st c1))"
         "CallSymbolsToMonikers names \<notin> set c1"
      by (rule gatherLocations_after_calls)
    from afterLoop_parse_call_only [OF a] x local_phase_symbols [OF l]
    show ?thesis by auto
  qed
  have 2: "\<not> strings_HasPrefix (Identifier (MonikerData m)) skipPrefix"
    if c: "CallGetSearchableUploadIDs ms \<in> set (resultCalls ?G)" and m: "m \<in> set ms"
    for ms m
  proof -
    have "\<not> isLocalCall (CallGetSearchableUploadIDs ms)" "CallGetSearchableUploadIDs ms \<noteq> ?v"
      by simp_all
    with c obtain vus' st c1 where
      l: "localLoop s args rs stop getLocs vus'
            \<lparr> allLocations = [], allSymbols = {}, skipPaths = Map.empty \<rparr> [?v]
          = (Continue st, c1)" and
      a: "CallGetSearchableUploadIDs ms \<in> set (snd (afterLoop s args rs tableName getIDs st c1))"
         "CallGetSearchableUploadIDs ms \<notin> set c1"
      by (rule gatherLocations_after_calls)
    from symbolsToMonikers_identifiers [OF afterLoop_ids_call [OF a]]
    have "map (\<lambda>m. Identifier (MonikerData m)) ms = sorted_list_of_set (allSymbols st)" .
    then have "set (sorted_list_of_set (allSymbols st))
                 = (\<lambda>m. Identifier (MonikerData m)) ` set ms"
      by (metis set_map)
    with m local_phase_symbols [OF l] show ?thesis by auto
  qed
  have 3: "set uls \<subseteq> set (resultLocations ?G)"
    if ns: "\<not> stop" and ok: "resultError ?G = None"
      and vis: "getVisibleUploadsFromCursor s (Line args) (Character args)
                  (CursorsToVisibleUploads cursor) rs = Inr (vus, cvus)"
      and vu: "vu \<in> set vus" "lookupAt getLocs args vu = Inr (locs, n, syms)" "locs \<noteq> []"
              "getUploadLocations s args rs locs True = Inr uls"
  proof (cases rule: gatherLocations_cases
      [where s=s and args=args and rs=rs and cursor=cursor and tableName=tableName
         and stop=stop and getIDs=getIDs and getLocs=getLocs])
    case (VisibleError e)
    with vis show ?thesis by simp
  next
    case (Returned vus' cvus' r c1)
    obtain a b e where r: "r = (a, b, e)" by (cases r) auto
    with ok Returned(3) have "e = None" by (simp add: resultError_def)
    with Returned(2) r ns localLoop_Return_ok show ?thesis by blast
  next
    case (Continued vus' cvus' st c1)
    with vis have l: "localLoop s args rs stop getLocs vus
            \<lparr> allLocations = [], allSymbols = {}, skipPaths = Map.empty \<rparr> [?v]
          = (Continue st, c1)" by simp
    from localLoop_locations [OF l] vu have u: "set uls \<subseteq> set (allLocations st)" by blast
    have "afterLoop s args rs tableName getIDs st c1
            = ((resultLocations ?G, resultCursor ?G, None), resultCalls ?G)"
      using result_eq [of ?G] ok Continued(3) by simp
    from afterLoop_success [OF this] u show ?thesis by auto
  qed
  have 4: "resultLocations ?G = uls"
    if "stop"
      and vis: "getVisibleUploadsFromCursor s (Line args) (Character args)
                  (CursorsToVisibleUploads cursor) rs = Inr (pre @ vu # post, cvus)"
      and pre: "\<forall>u \<in> set pre. \<exists>n syms. lookupAt getLocs args u = Inr ([], n, syms)"
      and vu: "lookupAt getLocs args vu = Inr (locs, n, syms)" "locs \<noteq> []"
              "getUploadLocations s args rs locs True = Inr uls"
    using \<open>stop\<close> unfolding gatherLocations_def Let_def vis
    by (simp add: localLoop_stops_at_first [OF pre vu] resultLocations_def
             del: localLoop.simps)
  from 1 2 3 4 show ?thesis by blast
qed

theorem marker_symbols_excluded_witness:
  "lookupAt exampleLookup exampleArgs uploadA
     = Inr ([exampleLocation 1 ''main.go''], 1, [''lsif . foo'', exampleSymbol]) \<and>
   strings_HasPrefix ''lsif . foo'' skipPrefix \<and>
   CallSymbolsToMonikers [exampleSymbol]
     \<in> set (resultCalls (gatherLocations exampleService exampleArgs exampleState
               zeroGenericCursor ''references'' False
               (makeReferencesUploadFactory exampleService exampleArgs exampleState)
               exampleLookup)) \<and>
   \<not> strings_HasPrefix exampleSymbol skipPrefix \<and>
   CallGetSearchableUploadIDs [exampleMoniker]
     \<in> set (resultCalls (gatherLocations exampleService exampleArgs exampleState
               zeroGenericCursor ''references'' False
               (makeReferencesUploadFactory exampleService exampleArgs exampleState)
               exampleLookup)) \<and>
   \<not> strings_HasPrefix (Identifier (MonikerData exampleMoniker)) skipPrefix \<and>
   set [exampleAdjust exampleArgs (exampleLocation 1 ''main.go'')]
     \<subseteq> set (resultLocations (gatherLocations exampleService exampleArgs exampleState
               zeroGenericCursor ''references'' False
               (makeReferencesUploadFactory exampleService exampleArgs exampleState)
               exampleLookup))"
proof -
  let ?G = "gatherLocations exampleService exampleArgs exampleState
               zeroGenericCursor ''references'' False
               (makeReferencesUploadFactory exampleService exampleArgs exampleState)
               exampleLookup"
  note e = example_gather [OF example_references_factory]
  have l: "lookupAt exampleLookup exampleArgs uploadA
     = Inr ([exampleLocation 1 ''main.go''], 1, [''lsif . foo'', exampleSymbol])"
    by (simp add: example_lookupAt uploadA_def)
  have p: "strings_HasPrefix ''lsif . foo'' skipPrefix"
    by (simp add: strings_HasPrefix_def skipPrefix_def)
  have c1: "CallSymbolsToMonikers [exampleSymbol] \<in> set (resultCalls ?G)"
    by (simp add: e result_simps)
  have c2: "CallGetSearchableUploadIDs [exampleMoniker] \<in> set (resultCalls ?G)"
    by (simp add: e result_simps)
  have ok: "resultError ?G = None"
    by (simp add: e result_simps)
  have v: "getVisibleUploadsFromCursor exampleService (Line exampleArgs) (Character exampleArgs)
             (CursorsToVisibleUploads zeroGenericCursor) exampleState
           = Inr ([uploadA, uploadB], [])"
    by (simp add: exampleService_def zeroGenericCursor_def)
  have a: "getUploadLocations exampleService exampleArgs exampleState
             [exampleLocation 1 ''main.go''] True
           = Inr [exampleAdjust exampleArgs (exampleLocation 1 ''main.go'')]"
    by (simp add: exampleService_def)
  note t = marker_symbols_excluded [of exampleService exampleArgs exampleState zeroGenericCursor
             "''references''" False
             "makeReferencesUploadFactory exampleService exampleArgs exampleState" exampleLookup
             "[uploadA, uploadB]" "[]" uploadA "[exampleLocation 1 ''main.go'']" 1
             "[''lsif . foo'', exampleSymbol]"
             "[exampleAdjust exampleArgs (exampleLocation 1 ''main.go'')]"]
  have 1: "\<not> strings_HasPrefix exampleSymbol skipPrefix"
    using t c1 by simp
  have 2: "\<not> strings_HasPrefix (Identifier (MonikerData exampleMoniker)) skipPrefix"
    using t c2 by simp
  have 3: "set [exampleAdjust exampleArgs (exampleLocation 1 ''main.go'')]
             \<subseteq> set (resultLocations ?G)"
    using t ok v l a by simp
  from l p c1 1 c2 2 3 show ?thesis by blast
qed











end
